theory Spec2Isabelle
  imports Complex_Main "HOL-Library.Char_ord" "HOL-Library.List_Lexorder"
    "HOL-Library.Product_Lexorder"
begin

section \<open>Values, tables and errors\<close>

text \<open>
  The report script works on pandas tables. A cell of a table is an integer (a column
  read as int64), a float (float64), a missing value (NA, which pandas stores as NaN)
  or text (a cell of an object column). Floats are modelled by the real numbers they
  denote: rounding error, infinities and overflow of float64 are outside the model.
  Text is a list of bytes; the strings the script compares are ASCII.
\<close>

datatype cell = IntCell int | FloatCell real | NACell | StrCell string

text \<open>
  The exceptions that the script can meet. \<open>ProviderError\<close> is whatever an external
  data provider raises (transport, authentication, query failure).
\<close>

datatype error = ValueError | KeyError | TypeError | IndexError | ProviderError string

text \<open>
  A table has its column labels in order and its rows in order; a row gives the cell
  under each label. Only the labels listed in \<open>columns\<close> belong to the table. The tables
  the script receives come from \<open>pd.read_csv\<close>, which makes the labels distinct.
\<close>

record dataframe =
  columns :: "string list"
  rows :: "(string \<Rightarrow> cell) list"

definition df_empty :: "dataframe \<Rightarrow> bool" where
  "df_empty df = (columns df = [] \<or> rows df = [])"

definition drop_column :: "string \<Rightarrow> dataframe \<Rightarrow> dataframe" where
  "drop_column col df = df\<lparr>columns := filter (\<lambda>c. c \<noteq> col) (columns df)\<rparr>"

text \<open>
  \<open>astype(float)\<close> turns an integer into the float of the same value (\<open>to_float\<close>) and
  leaves floats and missing values as they are; on text it raises \<open>ValueError\<close>. A text cell
  under a column that is converted stands for text that Python's \<open>float\<close> rejects:
  \<open>pd.read_csv\<close> keeps a column as text only when one of its cells is not a number.
\<close>

fun is_text :: "cell \<Rightarrow> bool" where
  "is_text (StrCell s) = True"
| "is_text c = False"

fun to_float :: "cell \<Rightarrow> cell" where
  "to_float (IntCell n) = FloatCell (of_int n)"
| "to_float c = c"

text \<open>
  \<open>df[col].astype(float)\<close>: the whole column is converted, or the conversion raises.
\<close>

definition column_astype_float :: "string \<Rightarrow> dataframe \<Rightarrow> error + cell list" where
  "column_astype_float col df =
     (if \<exists>row \<in> set (rows df). is_text (row col) then Inl ValueError
      else Inr (map (\<lambda>row. to_float (row col)) (rows df)))"

text \<open>\<open>df[col] = values\<close>: the column is replaced, or added as the last one.\<close>

definition setitem :: "string \<Rightarrow> cell list \<Rightarrow> dataframe \<Rightarrow> dataframe" where
  "setitem col values df =
     df\<lparr>columns := (if col \<in> set (columns df) then columns df else columns df @ [col]),
        rows := map (\<lambda>(row, v). row(col := v)) (zip (rows df) values)\<rparr>"

section \<open>Month names\<close>

text \<open>
  \<open>calendar.month_name\<close> and \<open>calendar.month_abbr\<close> of the Python standard library (English
  locale): thirteen entries each, the first one empty.
\<close>

definition month_name :: "string list" where
  "month_name =
    ['''', ''January'', ''February'', ''March'', ''April'', ''May'', ''June'',
     ''July'', ''August'', ''September'', ''October'', ''November'', ''December'']"

definition month_abbr :: "string list" where
  "month_abbr =
    ['''', ''Jan'', ''Feb'', ''Mar'', ''Apr'', ''May'', ''Jun'',
     ''Jul'', ''Aug'', ''Sep'', ''Oct'', ''Nov'', ''Dec'']"

definition MONTH_MAPPING :: "(string \<times> string) list" where
  "MONTH_MAPPING =
    [(''Jan'', ''January''), (''Feb'', ''February''), (''Mar'', ''March''),
     (''Apr'', ''April''), (''May'', ''May''), (''Jun'', ''June''),
     (''Jul'', ''July''), (''Aug'', ''August''), (''Sep'', ''September''),
     (''Oct'', ''October''), (''Nov'', ''November''), (''Dec'', ''December'')]"

text \<open>\<open>str.lower\<close> on ASCII text.\<close>

definition lower_char :: "char \<Rightarrow> char" where
  "lower_char c =
     (case map_of (zip ''ABCDEFGHIJKLMNOPQRSTUVWXYZ'' ''abcdefghijklmnopqrstuvwxyz'') c of
        Some l \<Rightarrow> l
      | None \<Rightarrow> c)"

definition lower :: "string \<Rightarrow> string" where
  "lower s = map lower_char s"

text \<open>\<open>p in s\<close> on strings: \<open>p\<close> occurs in \<open>s\<close> as a contiguous piece.\<close>

fun startswith :: "string \<Rightarrow> string \<Rightarrow> bool" where
  "startswith s [] = True"
| "startswith [] (p # ps) = False"
| "startswith (c # cs) (p # ps) = (c = p \<and> startswith cs ps)"

fun str_in :: "string \<Rightarrow> string \<Rightarrow> bool" where
  "str_in p [] = (p = [])"
| "str_in p (c # cs) = (startswith (c # cs) p \<or> str_in p cs)"

text \<open>\<open>list.index\<close>: the first position of a value, \<open>None\<close> where Python raises \<open>ValueError\<close>.\<close>

fun index_of :: "'a list \<Rightarrow> 'a \<Rightarrow> nat option" where
  "index_of [] x = None"
| "index_of (y # ys) x = (if y = x then Some 0 else map_option Suc (index_of ys x))"

definition standardize_month_name :: "string \<Rightarrow> string" where
  "standardize_month_name month_name' =
     (case map_of MONTH_MAPPING month_name' of
        Some full \<Rightarrow> full
      | None \<Rightarrow> month_name')"

text \<open>The test of the fallback loop of \<open>get_month_number\<close>, in either direction.\<close>

definition flexible :: "string \<Rightarrow> string \<Rightarrow> bool" where
  "flexible standard_month full_month =
     (str_in (lower standard_month) (lower full_month) \<or>
      str_in (lower full_month) (lower standard_month))"

fun flexible_match :: "string \<Rightarrow> (nat \<times> string) list \<Rightarrow> nat option" where
  "flexible_match standard_month [] = None"
| "flexible_match standard_month ((i, full_month) # rest) =
     (if 0 < i \<and> flexible standard_month full_month then Some i
      else flexible_match standard_month rest)"

definition get_month_number :: "string \<Rightarrow> nat" where
  "get_month_number month =
     (let standard_month = standardize_month_name month in
      case index_of month_name standard_month of
        Some i \<Rightarrow> i
      | None \<Rightarrow>
          (case flexible_match standard_month (enumerate 0 month_name) of
             Some i \<Rightarrow> i
           | None \<Rightarrow> 1))"

text \<open>
  \<open>first_flexible s i\<close>: \<open>i\<close> is the first of the twelve months whose full name passes the
  fallback test against \<open>s\<close>.
\<close>

definition first_flexible :: "string \<Rightarrow> nat \<Rightarrow> bool" where
  "first_flexible s i =
     (1 \<le> i \<and> i \<le> 12 \<and> flexible s (month_name ! i) \<and>
      (\<forall>j \<in> {1..<i}. \<not> flexible s (month_name ! j)))"

section \<open>The actual-hours lookup\<close>

text \<open>
  The external collaborators of the script, as the environment it runs in:
  \<open>bq.get_users()\<close> and \<open>bq.jira_tickets({"month": m})\<close> each return a table or raise.
  The one-hour memoisation of \<open>st.cache_data\<close> is not modelled: every call asks the
  provider.
\<close>

record env =
  get_users :: "error + dataframe"
  jira_tickets :: "string \<Rightarrow> error + dataframe"

text \<open>
  The lookup is a dictionary from (person, project) to hours; \<open>lookup.get(k, 0)\<close> reads it.
\<close>

type_synonym lookup = "cell \<times> cell \<rightharpoonup> real"

definition lookup_get :: "lookup \<Rightarrow> cell \<times> cell \<Rightarrow> real" where
  "lookup_get actual_hours_lookup k =
     (case actual_hours_lookup k of Some v \<Rightarrow> v | None \<Rightarrow> 0)"

text \<open>
  Rounding to a number of decimals, to the nearest value and to the even one on a tie, as
  Python's \<open>round\<close> and numpy's \<open>round\<close> do on the real number a float denotes.
\<close>

definition round_half_even :: "real \<Rightarrow> int" where
  "round_half_even x =
     (let f = \<lfloor>x\<rfloor>; d = x - of_int f in
      if d < 1 / 2 then f
      else if 1 / 2 < d then f + 1
      else if even f then f else f + 1)"

definition py_round :: "real \<Rightarrow> nat \<Rightarrow> real" where
  "py_round x ndigits = of_int (round_half_even (x * 10 ^ ndigits)) / 10 ^ ndigits"

text \<open>\<open>xs[i]\<close> on a list, raising \<open>IndexError\<close> out of range.\<close>

definition getitem :: "'a list \<Rightarrow> nat \<Rightarrow> error + 'a" where
  "getitem xs i = (if i < length xs then Inr (xs ! i) else Inl IndexError)"

text \<open>
  The hours of one ticket: \<open>time_spent\<close> as a float, divided by 3600. A missing value stays
  missing.
\<close>

fun hours_cell :: "cell \<Rightarrow> cell" where
  "hours_cell (FloatCell x) = FloatCell (x / 3600)"
| "hours_cell (IntCell n) = FloatCell (of_int n / 3600)"
| "hours_cell c = c"

fun is_na :: "cell \<Rightarrow> bool" where
  "is_na NACell = True"
| "is_na c = False"

text \<open>The value that a sum adds for a cell: missing values are skipped.\<close>

fun summand :: "cell \<Rightarrow> real" where
  "summand (FloatCell x) = x"
| "summand (IntCell n) = of_int n"
| "summand c = 0"

text \<open>
  \<open>groupby(["teric_name", "teric_project_name"])["actual_hours"].sum()\<close>: rows with a
  missing key are left out, the others add their hours to their group.
\<close>

fun groupby_sum :: "(string \<Rightarrow> cell) list \<Rightarrow> lookup \<Rightarrow> lookup" where
  "groupby_sum [] acc = acc"
| "groupby_sum (row # rest) acc =
     (let k = (row ''teric_name'', row ''teric_project_name'') in
      if is_na (fst k) \<or> is_na (snd k) then groupby_sum rest acc
      else groupby_sum rest (acc(k \<mapsto> lookup_get acc k + summand (row ''actual_hours''))))"

definition grouped_lookup :: "dataframe \<Rightarrow> lookup" where
  "grouped_lookup report_df =
     (\<lambda>k. map_option (\<lambda>v. py_round v 2) (groupby_sum (rows report_df) Map.empty k))"

text \<open>
  \<open>fetch_all_actual_hours\<close> returns the lookup and the warnings it has shown with
  \<open>st.warning\<close> (each warning carries the exception caught).
\<close>

definition fetch_all_actual_hours :: "env \<Rightarrow> string \<Rightarrow> string \<Rightarrow> error list \<times> lookup" where
  "fetch_all_actual_hours e month year =
     (case getitem month_abbr (get_month_number month) of
        Inl ex \<Rightarrow> ([ex], Map.empty)
      | Inr month_abbr' \<Rightarrow>
          (let month_str = month_abbr' @ '' '' @ year in
           case jira_tickets e month_str of
             Inl ex \<Rightarrow> ([ex], Map.empty)
           | Inr report_df \<Rightarrow>
               if \<not> df_empty report_df \<and> ''time_spent'' \<in> set (columns report_df) then
                 (case column_astype_float ''time_spent'' report_df of
                    Inl ex \<Rightarrow> ([ex], Map.empty)
                  | Inr seconds \<Rightarrow>
                      (let report_df' = setitem ''actual_hours'' (map hours_cell seconds) report_df in
                       if ''teric_name'' \<in> set (columns report_df') \<and>
                          ''teric_project_name'' \<in> set (columns report_df')
                       then ([], grouped_lookup report_df')
                       else ([KeyError], Map.empty)))
               else ([], Map.empty)))"

definition fetch_valid_users :: "env \<Rightarrow> error + cell set" where
  "fetch_valid_users e =
     (case get_users e of
        Inl ex \<Rightarrow> Inl ex
      | Inr users_df \<Rightarrow>
          if \<not> df_empty users_df then
            (if ''name'' \<in> set (columns users_df)
             then Inr (set (map (\<lambda>row. row ''name'') (rows users_df)))
             else Inl KeyError)
          else Inr {})"

section \<open>The allocation report\<close>

text \<open>
  A value of \<open>PROJECT_NAME_MAPPING\<close> is one project name or a list of them. The dictionary
  is written in the order of the source: a label given twice keeps its last value.
\<close>

datatype pname = Single string | Combined "string list"

definition PROJECT_NAME_MAPPING :: "string \<rightharpoonup> pname" where
  "PROJECT_NAME_MAPPING =
    [''SDI'' \<mapsto> Single ''SDI'',
     ''Vars/Vita.'' \<mapsto> Combined [''VARS'', ''Vitawerks''],
     ''Kinergy'' \<mapsto> Single ''Kinergy'',
     ''Nabis - Retainer'' \<mapsto> Single ''Nabis'',
     ''Nabis - 3C'' \<mapsto> Single ''Nabis:Data Warehouse'',
     ''STT - Daily Shuttle'' \<mapsto> Single ''STT'',
     ''Lithium'' \<mapsto> Single ''Lithium'',
     ''Phoenix'' \<mapsto> Single ''Phoenix'',
     ''ForceMultipler'' \<mapsto> Single ''ForceMultiplier'',
     ''QualApps'' \<mapsto> Single ''QualApps'',
     ''Alma'' \<mapsto> Single ''Alma'',
     ''Super Eng.'' \<mapsto> Single ''SuperEngineer'',
     ''Super Eng.'' \<mapsto> Single ''Alpha'',
     ''Digital Twin'' \<mapsto> Single ''Digital Twin'',
     ''Project Alc.'' \<mapsto> Single ''Project Allocation'',
     ''VISO Training'' \<mapsto> Single ''Project Viso'',
     ''Rhythm'' \<mapsto> Single ''Rhythmm'',
     ''Text Vegas'' \<mapsto> Single ''Text Vegas'']"

definition IGNORED_COLUMNS :: "string list" where
  "IGNORED_COLUMNS =
    [''Dept'', ''Level'', ''Internal Alc.'', ''Avail. Bandwidth'', ''Project Alc.'']"

text \<open>
  What a \<open>for p in v\<close> runs over: the names of a list, the characters of a string.
\<close>

fun members :: "pname \<Rightarrow> string list" where
  "members (Combined ps) = ps"
| "members (Single s) = map (\<lambda>c. [c]) s"

text \<open>One line of the report.\<close>

record report_row =
  Name :: cell
  Project :: string
  Expected_Hours :: real
  Actual_Hours :: real
  Completion :: real

text \<open>Lines 175 to 177: the completion percentage of one cell.\<close>

definition completion_percentage :: "real \<Rightarrow> real \<Rightarrow> real" where
  "completion_percentage expected_hours actual_hours =
     (if 0 < expected_hours
      then min (py_round ((actual_hours / expected_hours) * 100) 2) 100
      else 0)"

text \<open>
  Lines 151 to 165: the project name of the report and the actual hours, for one
  employee and one column. A list value outside the combined column would be used as a
  dictionary key, which raises \<open>TypeError\<close>.
\<close>

definition standardize_project :: "lookup \<Rightarrow> cell \<Rightarrow> string \<Rightarrow> error + string \<times> real" where
  "standardize_project actual_hours_lookup employee_name project_col =
     (case PROJECT_NAME_MAPPING project_col of
        Some v \<Rightarrow>
          if project_col = ''Vars/Vita.'' then
            Inr (''VARS/Vitawerks'',
                 sum_list (map (\<lambda>p. lookup_get actual_hours_lookup (employee_name, StrCell p))
                               (members v)))
          else
            (case v of
               Single standardized_project \<Rightarrow>
                 Inr (standardized_project,
                      lookup_get actual_hours_lookup (employee_name, StrCell standardized_project))
             | Combined ps \<Rightarrow> Inl TypeError)
      | None \<Rightarrow>
          Inr (project_col, lookup_get actual_hours_lookup (employee_name, StrCell project_col)))"

text \<open>
  The number in a cell that passes the test of line 148,
  \<open>pd.notna(row[project_col]) and row[project_col] > 0\<close>; comparing text with 0 raises.
\<close>

fun allocated :: "cell \<Rightarrow> error + real option" where
  "allocated NACell = Inr None"
| "allocated (FloatCell x) = Inr (if 0 < x then Some x else None)"
| "allocated (IntCell n) = Inr (if 0 < n then Some (of_int n) else None)"
| "allocated (StrCell s) = Inl TypeError"

text \<open>The body of the inner loop: the records that one cell appends, none or one.\<close>

definition cell_records ::
  "lookup \<Rightarrow> (string \<Rightarrow> cell) \<Rightarrow> cell \<Rightarrow> string \<Rightarrow> error + report_row list" where
  "cell_records actual_hours_lookup row employee_name project_col =
     (case allocated (row project_col) of
        Inl ex \<Rightarrow> Inl ex
      | Inr None \<Rightarrow> Inr []
      | Inr (Some expected_hours) \<Rightarrow>
          (case standardize_project actual_hours_lookup employee_name project_col of
             Inl ex \<Rightarrow> Inl ex
           | Inr (standardized_project, actual_hours) \<Rightarrow>
               Inr [\<lparr>Name = employee_name,
                     Project = standardized_project,
                     Expected_Hours = expected_hours,
                     Actual_Hours = actual_hours,
                     Completion = completion_percentage expected_hours actual_hours\<rparr>]))"

fun project_loop ::
  "lookup \<Rightarrow> (string \<Rightarrow> cell) \<Rightarrow> cell \<Rightarrow> string list \<Rightarrow> error + report_row list" where
  "project_loop actual_hours_lookup row employee_name [] = Inr []"
| "project_loop actual_hours_lookup row employee_name (project_col # rest) =
     (case cell_records actual_hours_lookup row employee_name project_col of
        Inl ex \<Rightarrow> Inl ex
      | Inr appended \<Rightarrow>
          (case project_loop actual_hours_lookup row employee_name rest of
             Inl ex \<Rightarrow> Inl ex
           | Inr later \<Rightarrow> Inr (appended @ later)))"

text \<open>
  The loop over \<open>df.iterrows()\<close>; \<open>row['Name']\<close> raises \<open>KeyError\<close> in a table without that
  column.
\<close>

fun iterrows_loop ::
  "lookup \<Rightarrow> string list \<Rightarrow> string list \<Rightarrow> (string \<Rightarrow> cell) list \<Rightarrow> error + report_row list" where
  "iterrows_loop actual_hours_lookup cols project_columns [] = Inr []"
| "iterrows_loop actual_hours_lookup cols project_columns (row # rest) =
     (if ''Name'' \<in> set cols then
        (case project_loop actual_hours_lookup row (row ''Name'') project_columns of
           Inl ex \<Rightarrow> Inl ex
         | Inr appended \<Rightarrow>
             (case iterrows_loop actual_hours_lookup cols project_columns rest of
                Inl ex \<Rightarrow> Inl ex
              | Inr later \<Rightarrow> Inr (appended @ later)))
      else Inl KeyError)"

text \<open>
  \<open>sort_values(['Name', 'Project'])\<close>: a stable sort on the pair of the two columns, text
  compared byte by byte. Employee names are text; the place pandas gives to a name that
  is a number or missing is outside the model, which sorts it as the empty text.
\<close>

fun name_text :: "cell \<Rightarrow> string" where
  "name_text (StrCell s) = s"
| "name_text c = []"

definition sort_key_of :: "report_row \<Rightarrow> string \<times> string" where
  "sort_key_of r = (name_text (Name r), Project r)"

definition sort_values :: "report_row list \<Rightarrow> report_row list" where
  "sort_values processed_data = sort_key sort_key_of processed_data"

text \<open>
  The objects of the program: tables live in a store under their addresses, so that two
  variables can name the same table. \<open>next_ref\<close> is the first address not in use yet;
  \<open>warnings\<close> is what \<open>st.warning\<close> has shown so far.
\<close>

record store =
  heap :: "nat \<Rightarrow> dataframe"
  next_ref :: nat
  warnings :: "error list"

definition alloc :: "store \<Rightarrow> dataframe \<Rightarrow> store \<times> nat" where
  "alloc s df =
     (s\<lparr>heap := (heap s)(next_ref s := df), next_ref := Suc (next_ref s)\<rparr>, next_ref s)"

text \<open>
  Lines 120 to 122: \<open>df = df.drop(columns=[col])\<close> makes a new table and binds the
  variable \<open>df\<close> to it; the table \<open>df\<close> named before is not touched.
\<close>

fun drop_ignored :: "store \<Rightarrow> nat \<Rightarrow> string list \<Rightarrow> store \<times> nat" where
  "drop_ignored s df [] = (s, df)"
| "drop_ignored s df (col # rest) =
     (if col \<in> set (columns (heap s df)) then
        (case alloc s (drop_column col (heap s df)) of
           (s', df') \<Rightarrow> drop_ignored s' df' rest)
      else drop_ignored s df rest)"

text \<open>
  Lines 126 and 127: \<open>df[col] = df[col].astype(float)\<close> writes into the table that \<open>df\<close>
  names. A column that fails to convert stops the loop; the columns converted before it
  stay converted.
\<close>

fun astype_loop :: "store \<Rightarrow> nat \<Rightarrow> string list \<Rightarrow> store \<times> error option" where
  "astype_loop s df [] = (s, None)"
| "astype_loop s df (col # rest) =
     (case column_astype_float col (heap s df) of
        Inl ex \<Rightarrow> (s, Some ex)
      | Inr values \<Rightarrow>
          astype_loop (s\<lparr>heap := (heap s)(df := setitem col values (heap s df))\<rparr>) df rest)"

definition process_allocation_csv ::
  "env \<Rightarrow> store \<Rightarrow> nat \<Rightarrow> string \<Rightarrow> string \<Rightarrow> store \<times> (error + report_row list)" where
  "process_allocation_csv e s df selected_month selected_year =
     (case drop_ignored s df IGNORED_COLUMNS of
        (s1, df1) \<Rightarrow>
          (let numeric_cols = filter (\<lambda>col. col \<noteq> ''Name'') (columns (heap s1 df1)) in
           case astype_loop s1 df1 numeric_cols of
             (s2, Some ex) \<Rightarrow> (s2, Inl ex)
           | (s2, None) \<Rightarrow>
               (let project_columns = filter (\<lambda>col. col \<noteq> ''Name'') (columns (heap s2 df1)) in
                case fetch_valid_users e of
                  Inl ex \<Rightarrow> (s2, Inl ex)
                | Inr valid_users \<Rightarrow>
                    (case fetch_all_actual_hours e selected_month selected_year of
                       (shown, actual_hours_lookup) \<Rightarrow>
                         (let s3 = s2\<lparr>warnings := warnings s2 @ shown\<rparr> in
                          case iterrows_loop actual_hours_lookup (columns (heap s3 df1))
                                 project_columns (rows (heap s3 df1)) of
                            Inl ex \<Rightarrow> (s3, Inl ex)
                          | Inr processed_data \<Rightarrow> (s3, Inr (sort_values processed_data)))))))"

section \<open>What the report is, as a function of the table\<close>

text \<open>
  The definitions of this section describe the result of \<open>process_allocation_csv\<close>; the
  lemmas below prove that the code computes them.

  \<open>dropped df\<close> is the table without its ignored columns, \<open>numeric_cols df\<close> the columns
  left besides \<open>Name\<close>, and \<open>converted cols row\<close> the row with the cells under \<open>cols\<close> as
  floats. \<open>numeric_table df\<close> holds when no cell under the numeric columns is text.
\<close>

definition dropped :: "dataframe \<Rightarrow> dataframe" where
  "dropped df = df\<lparr>columns := filter (\<lambda>c. c \<notin> set IGNORED_COLUMNS) (columns df)\<rparr>"

definition numeric_cols :: "dataframe \<Rightarrow> string list" where
  "numeric_cols df = filter (\<lambda>col. col \<noteq> ''Name'') (columns (dropped df))"

definition converted :: "string list \<Rightarrow> (string \<Rightarrow> cell) \<Rightarrow> string \<Rightarrow> cell" where
  "converted cols row = (\<lambda>c. if c \<in> set cols then to_float (row c) else row c)"

definition as_float :: "string list \<Rightarrow> dataframe \<Rightarrow> dataframe" where
  "as_float cols df = df\<lparr>rows := map (converted cols) (rows df)\<rparr>"

definition numeric_table :: "dataframe \<Rightarrow> bool" where
  "numeric_table df =
     (\<forall>row \<in> set (rows df). \<forall>c \<in> set (numeric_cols df). \<not> is_text (row c))"

text \<open>
  The records that the loop body appends for one cell of a row, and for a whole row.
\<close>

definition records_of :: "error + report_row list \<Rightarrow> report_row list" where
  "records_of res = (case res of Inl ex \<Rightarrow> [] | Inr rs \<Rightarrow> rs)"

definition cell_lines :: "lookup \<Rightarrow> (string \<Rightarrow> cell) \<Rightarrow> string \<Rightarrow> report_row list" where
  "cell_lines actual_hours_lookup row project_col =
     records_of (cell_records actual_hours_lookup row (row ''Name'') project_col)"

definition row_lines :: "lookup \<Rightarrow> string list \<Rightarrow> (string \<Rightarrow> cell) \<Rightarrow> report_row list" where
  "row_lines actual_hours_lookup project_columns row =
     concat (map (cell_lines actual_hours_lookup row) project_columns)"

text \<open>
  \<open>report actual_hours_lookup df\<close>: every row of the table, its numeric cells as floats,
  gives its lines in the order of the columns; the lines of all rows are then sorted.
\<close>

definition report :: "lookup \<Rightarrow> dataframe \<Rightarrow> report_row list" where
  "report actual_hours_lookup df =
     sort_values
       (concat (map (\<lambda>row. row_lines actual_hours_lookup (numeric_cols df)
                              (converted (numeric_cols df) row))
                    (rows df)))"

text \<open>\<open>has_allocation c\<close>: the cell passes the test of line 148.\<close>

definition has_allocation :: "cell \<Rightarrow> bool" where
  "has_allocation c = (case allocated c of Inr (Some x) \<Rightarrow> True | _ \<Rightarrow> False)"

text \<open>
  \<open>period month year\<close>: the period string that \<open>fetch_all_actual_hours\<close> sends to the
  ticket provider, as line 84 formats it.
\<close>

definition period :: "string \<Rightarrow> string \<Rightarrow> string" where
  "period month year = month_abbr ! get_month_number month @ '' '' @ year"

text \<open>
  \<open>shape rec\<close>: the part of a record that comes from the table alone, its \<open>Name\<close>, its
  \<open>Project\<close> and its \<open>Expected Hours\<close>.
\<close>

definition shape :: "report_row \<Rightarrow> cell \<times> string \<times> real" where
  "shape rec = (Name rec, Project rec, Expected_Hours rec)"

text \<open>
  \<open>combined_record L row x\<close>: the record of the column \<open>Vars/Vita.\<close> for a row with \<open>x\<close>
  expected hours, its actual hours being the sum of the two lookup values.
\<close>

definition combined_record :: "lookup \<Rightarrow> (string \<Rightarrow> cell) \<Rightarrow> real \<Rightarrow> report_row" where
  "combined_record L row x =
     \<lparr>Name = row ''Name'',
      Project = ''VARS/Vitawerks'',
      Expected_Hours = x,
      Actual_Hours = lookup_get L (row ''Name'', StrCell ''VARS'') +
                     lookup_get L (row ''Name'', StrCell ''Vitawerks''),
      Completion = completion_percentage x
        (lookup_get L (row ''Name'', StrCell ''VARS'') +
         lookup_get L (row ''Name'', StrCell ''Vitawerks''))\<rparr>"

section \<open>Example inputs\<close>

text \<open>
  Small tables on which the theorems below are run. \<open>table_row\<close> builds a row from its
  cells; a label without a cell is missing (NA).
\<close>

definition table_row :: "(string \<times> cell) list \<Rightarrow> string \<Rightarrow> cell" where
  "table_row cells = (\<lambda>c. case map_of cells c of Some v \<Rightarrow> v | None \<Rightarrow> NACell)"

definition alice_df :: dataframe where
  "alice_df =
     \<lparr>columns = [''Name'', ''SDI''],
      rows = [table_row [(''Name'', StrCell ''Alice''), (''SDI'', IntCell 10)]]\<rparr>"

definition alice_tickets :: dataframe where
  "alice_tickets =
     \<lparr>columns = [''teric_name'', ''teric_project_name'', ''time_spent''],
      rows = [table_row [(''teric_name'', StrCell ''Alice''),
                         (''teric_project_name'', StrCell ''SDI''),
                         (''time_spent'', IntCell 54000)]]\<rparr>"

definition bob_df :: dataframe where
  "bob_df =
     \<lparr>columns = [''Name'', ''Vars/Vita.''],
      rows = [table_row [(''Name'', StrCell ''Bob''), (''Vars/Vita.'', IntCell 10)]]\<rparr>"

definition bob_tickets :: dataframe where
  "bob_tickets =
     \<lparr>columns = [''teric_name'', ''teric_project_name'', ''time_spent''],
      rows = [table_row [(''teric_name'', StrCell ''Bob''),
                         (''teric_project_name'', StrCell ''VARS''),
                         (''time_spent'', IntCell 14400)],
              table_row [(''teric_name'', StrCell ''Bob''),
                         (''teric_project_name'', StrCell ''Vitawerks''),
                         (''time_spent'', IntCell 10800)]]\<rparr>"

definition carol_df :: dataframe where
  "carol_df =
     \<lparr>columns = [''Name'', ''SDI'', ''Kinergy'', ''Alma'', ''Phoenix''],
      rows = [table_row [(''Name'', StrCell ''Carol''), (''SDI'', FloatCell 0),
                         (''Alma'', IntCell (- 3)), (''Phoenix'', FloatCell 8)]]\<rparr>"

definition text_df :: dataframe where
  "text_df =
     \<lparr>columns = [''Name'', ''SDI''],
      rows = [table_row [(''Name'', StrCell ''Dan''), (''SDI'', StrCell ''abc'')]]\<rparr>"

definition no_tickets :: dataframe where
  "no_tickets = \<lparr>columns = [''teric_name'', ''teric_project_name'', ''time_spent''], rows = []\<rparr>"

definition users_df :: dataframe where
  "users_df = \<lparr>columns = [''name''], rows = [table_row [(''name'', StrCell ''Alice'')]]\<rparr>"

definition example_env :: "dataframe \<Rightarrow> env" where
  "example_env tickets = \<lparr>get_users = Inr users_df, jira_tickets = (\<lambda>month_str. Inr tickets)\<rparr>"

definition nameless_tickets :: dataframe where
  "nameless_tickets =
     \<lparr>columns = [''teric_project_name'', ''time_spent''],
      rows = [table_row [(''teric_project_name'', StrCell ''SDI''), (''time_spent'', IntCell 3600)]]\<rparr>"

definition text_tickets :: dataframe where
  "text_tickets =
     \<lparr>columns = [''teric_name'', ''teric_project_name'', ''time_spent''],
      rows = [table_row [(''teric_name'', StrCell ''Alice''),
                         (''teric_project_name'', StrCell ''SDI''),
                         (''time_spent'', StrCell ''n/a'')]]\<rparr>"

definition failing_env :: env where
  "failing_env =
     \<lparr>get_users = Inr users_df, jira_tickets = (\<lambda>month_str. Inl (ProviderError ''timeout''))\<rparr>"

definition example_store :: "dataframe \<Rightarrow> store" where
  "example_store df = \<lparr>heap = (\<lambda>r. df), next_ref = 1, warnings = []\<rparr>"

definition erin_df :: dataframe where
  "erin_df =
     \<lparr>columns = [''Name'', ''Dept'', ''SDI''],
      rows = [table_row [(''Name'', StrCell ''Erin''), (''Dept'', StrCell ''Eng''),
                         (''SDI'', IntCell 5)]]\<rparr>"

definition fay_df :: dataframe where
  "fay_df =
     \<lparr>columns = [''Name'', ''SDI''],
      rows = [table_row [(''Name'', StrCell ''Fay''), (''SDI'', FloatCell 4)]]\<rparr>"

definition team_df :: dataframe where
  "team_df =
     \<lparr>columns = [''Name'', ''SDI'', ''Alma''],
      rows = [table_row [(''Name'', StrCell ''Zed''), (''SDI'', IntCell 3), (''Alma'', IntCell 2)],
              table_row [(''Name'', StrCell ''Amy''), (''SDI'', IntCell 1)]]\<rparr>"

text \<open>A store with two tables: Erin's at address 0, Alice's at address 1.\<close>

definition two_tables :: store where
  "two_tables = \<lparr>heap = (\<lambda>r. if r = 0 then erin_df else alice_df), next_ref = 2, warnings = []\<rparr>"

section \<open>Properties of the month functions\<close>

lemma index_of_Some:
  "index_of xs x = Some i \<Longrightarrow> i < length xs \<and> xs ! i = x"
  by (induction xs arbitrary: i) (auto split: if_splits)

lemma index_of_None: "index_of xs x = None \<longleftrightarrow> x \<notin> set xs"
  by (induction xs) auto

lemma flexible_match_Some:
  "flexible_match s (enumerate n xs) = Some i \<Longrightarrow>
     n \<le> i \<and> i < n + length xs \<and> 0 < i \<and> flexible s (xs ! (i - n)) \<and>
     (\<forall>j. n \<le> j \<and> j < i \<and> 0 < j \<longrightarrow> \<not> flexible s (xs ! (j - n)))"
proof (induction xs arbitrary: n)
  case Nil
  then show ?case by simp
next
  case (Cons x xs)
  show ?case
  proof (cases "0 < n \<and> flexible s x")
    case True
    with Cons.prems show ?thesis by auto
  next
    case False
    with Cons.prems have rest: "flexible_match s (enumerate (Suc n) xs) = Some i"
      by auto
    note ih = Cons.IH [OF rest]
    have "\<not> flexible s ((x # xs) ! (j - n))" if "n \<le> j" "j < i" "0 < j" for j
    proof (cases "j = n")
      case True
      with False that show ?thesis by simp
    next
      case False
      with that have "Suc n \<le> j" by simp
      with ih that have "\<not> flexible s (xs ! (j - Suc n))" by blast
      moreover from \<open>Suc n \<le> j\<close> have "(x # xs) ! (j - n) = xs ! (j - Suc n)"
        by (simp add: Suc_diff_le)
      ultimately show ?thesis by simp
    qed
    moreover from ih have "(x # xs) ! (i - n) = xs ! (i - Suc n)"
      by (simp add: Suc_diff_le)
    ultimately show ?thesis using ih by auto
  qed
qed

lemma flexible_match_None:
  "flexible_match s (enumerate n xs) = None \<Longrightarrow>
     n \<le> j \<Longrightarrow> j < n + length xs \<Longrightarrow> 0 < j \<Longrightarrow> \<not> flexible s (xs ! (j - n))"
proof (induction xs arbitrary: n)
  case Nil
  then show ?case by simp
next
  case (Cons x xs)
  from Cons.prems(1) have here: "\<not> (0 < n \<and> flexible s x)"
    and rest: "flexible_match s (enumerate (Suc n) xs) = None"
    by (auto split: if_splits)
  show ?case
  proof (cases "j = n")
    case True
    with here Cons.prems show ?thesis by simp
  next
    case False
    with Cons.prems have "Suc n \<le> j" "j < Suc n + length xs" by simp_all
    from Cons.IH [OF rest this \<open>0 < j\<close>] \<open>Suc n \<le> j\<close> show ?thesis
      by (simp add: Suc_diff_le)
  qed
qed

lemma length_month_name: "length month_name = 13"
  by (simp add: month_name_def)

lemma get_month_number_exact:
  "index_of month_name (standardize_month_name m) = Some i \<Longrightarrow> get_month_number m = i"
  by (simp add: get_month_number_def)

lemma get_month_number_flexible:
  assumes "standardize_month_name m \<notin> set month_name"
    and "first_flexible (standardize_month_name m) i"
  shows "get_month_number m = i"
proof -
  let ?s = "standardize_month_name m"
  from assms(1) have none: "index_of month_name ?s = None"
    by (simp add: index_of_None)
  from assms(2) have i: "1 \<le> i" "i \<le> 12" "flexible ?s (month_name ! i)"
    and least: "\<And>j. 1 \<le> j \<Longrightarrow> j < i \<Longrightarrow> \<not> flexible ?s (month_name ! j)"
    by (auto simp: first_flexible_def)
  show ?thesis
  proof (cases "flexible_match ?s (enumerate 0 month_name)")
    case None
    from flexible_match_None [OF None, of i] i show ?thesis
      by (simp add: length_month_name)
  next
    case (Some k)
    from flexible_match_Some [OF Some]
    have k: "0 < k" "k < 13" "flexible ?s (month_name ! k)"
      and kleast: "\<And>j. 0 < j \<Longrightarrow> j < k \<Longrightarrow> \<not> flexible ?s (month_name ! j)"
      by (auto simp: length_month_name)
    have "k = i"
    proof (rule ccontr)
      assume "k \<noteq> i"
      then consider "k < i" | "i < k" by linarith
      then show False
      proof cases
        case 1
        with least [of k] k show False by simp
      next
        case 2
        with kleast [of i] i show False by simp
      qed
    qed
    with none Some show ?thesis by (simp add: get_month_number_def)
  qed
qed

lemma get_month_number_default:
  assumes "standardize_month_name m \<notin> set month_name"
    and "\<forall>i \<in> {1..12}. \<not> flexible (standardize_month_name m) (month_name ! i)"
  shows "get_month_number m = 1"
proof -
  let ?s = "standardize_month_name m"
  from assms(1) have none: "index_of month_name ?s = None"
    by (simp add: index_of_None)
  show ?thesis
  proof (cases "flexible_match ?s (enumerate 0 month_name)")
    case None
    with none show ?thesis by (simp add: get_month_number_def)
  next
    case (Some k)
    from flexible_match_Some [OF Some]
    have "0 < k" "k < 13" "flexible ?s (month_name ! k)"
      by (auto simp: length_month_name)
    with assms(2) show ?thesis by auto
  qed
qed

lemma get_month_number_le: "get_month_number m \<le> 12"
proof -
  let ?s = "standardize_month_name m"
  show ?thesis
  proof (cases "index_of month_name ?s")
    case (Some i)
    from index_of_Some [OF Some] Some show ?thesis
      by (simp add: get_month_number_def length_month_name)
  next
    case None
    show ?thesis
    proof (cases "flexible_match ?s (enumerate 0 month_name)")
      case None
      with \<open>index_of month_name ?s = None\<close> show ?thesis by (simp add: get_month_number_def)
    next
      case (Some k)
      from flexible_match_Some [OF Some] have "k < 13" by (simp add: length_month_name)
      with Some \<open>index_of month_name ?s = None\<close> show ?thesis by (simp add: get_month_number_def)
    qed
  qed
qed

lemmas month_eval = get_month_number_def standardize_month_name_def MONTH_MAPPING_def
  month_name_def lower_def lower_char_def flexible_def

text \<open>
  Claim C7, as the code has it. \<open>standardize_month_name\<close> looks the name up in
  \<open>MONTH_MAPPING\<close> and returns it unchanged on a miss. \<open>get_month_number\<close> then takes the
  position of the standardized name in \<open>calendar.month_name\<close>; when it is not there, the
  first of the twelve full names that contains it or is contained in it, letter case
  ignored; and 1, the number of January, when there is none. So \<open>'Xyz'\<close> stays \<open>'Xyz'\<close> as
  a name and gets the number 1, while \<open>'Mar'\<close> becomes \<open>'March'\<close> and \<open>'March'\<close> stays, both
  with the number 3.
\<close>

theorem month_canonicalization:
  "(\<forall>full. map_of MONTH_MAPPING m = Some full \<longrightarrow> standardize_month_name m = full) \<and>
   (map_of MONTH_MAPPING m = None \<longrightarrow> standardize_month_name m = m) \<and>
   (\<forall>i. index_of month_name (standardize_month_name m) = Some i \<longrightarrow> get_month_number m = i) \<and>
   (standardize_month_name m \<notin> set month_name \<longrightarrow>
      (\<forall>i. first_flexible (standardize_month_name m) i \<longrightarrow> get_month_number m = i)) \<and>
   (standardize_month_name m \<notin> set month_name \<longrightarrow>
      (\<forall>i \<in> {1..12}. \<not> flexible (standardize_month_name m) (month_name ! i)) \<longrightarrow>
      get_month_number m = 1) \<and>
   standardize_month_name ''Xyz'' = ''Xyz'' \<and> get_month_number ''Xyz'' = 1 \<and>
   standardize_month_name ''Mar'' = ''March'' \<and> get_month_number ''Mar'' = 3 \<and>
   standardize_month_name ''March'' = ''March'' \<and> get_month_number ''March'' = 3"
proof -
  have "standardize_month_name ''Xyz'' = ''Xyz''" "get_month_number ''Xyz'' = 1"
    "standardize_month_name ''Mar'' = ''March''" "get_month_number ''Mar'' = 3"
    "standardize_month_name ''March'' = ''March''" "get_month_number ''March'' = 3"
    by (simp_all add: month_eval)
  moreover have "\<forall>full. map_of MONTH_MAPPING m = Some full \<longrightarrow> standardize_month_name m = full"
    "map_of MONTH_MAPPING m = None \<longrightarrow> standardize_month_name m = m"
    by (simp_all add: standardize_month_name_def)
  ultimately show ?thesis
    using get_month_number_exact get_month_number_flexible get_month_number_default
    by blast
qed

theorem month_canonicalization_witness:
  "map_of MONTH_MAPPING ''Mar'' = Some ''March'' \<and>
   index_of month_name (standardize_month_name ''Mar'') = Some 3 \<and>
   get_month_number ''Mar'' = 3 \<and>
   map_of MONTH_MAPPING ''the month of MAY'' = None \<and>
   standardize_month_name ''the month of MAY'' = ''the month of MAY'' \<and>
   standardize_month_name ''the month of MAY'' \<notin> set month_name \<and>
   first_flexible (standardize_month_name ''the month of MAY'') 5 \<and>
   get_month_number ''the month of MAY'' = 5 \<and>
   standardize_month_name ''Q1'' \<notin> set month_name \<and>
   get_month_number ''Q1'' = 1"
proof -
  have mar: "map_of MONTH_MAPPING ''Mar'' = Some ''March''"
    by (simp add: MONTH_MAPPING_def)
  with month_canonicalization [of "''Mar''"]
  have mar_std: "standardize_month_name ''Mar'' = ''March''"
    by blast
  have mar_idx: "index_of month_name (standardize_month_name ''Mar'') = Some 3"
    by (simp add: mar_std month_name_def)
  with month_canonicalization [of "''Mar''"] have mar_num: "get_month_number ''Mar'' = 3"
    by blast
  have may: "map_of MONTH_MAPPING ''the month of MAY'' = None"
    by (simp add: MONTH_MAPPING_def)
  with month_canonicalization [of "''the month of MAY''"]
  have may_std: "standardize_month_name ''the month of MAY'' = ''the month of MAY''"
    by blast
  have may_miss: "standardize_month_name ''the month of MAY'' \<notin> set month_name"
    by (simp add: may_std month_name_def)
  have may_first: "first_flexible (standardize_month_name ''the month of MAY'') 5"
    by code_simp
  from may_miss may_first month_canonicalization [of "''the month of MAY''"]
  have may_num: "get_month_number ''the month of MAY'' = 5"
    by blast
  have q_std: "standardize_month_name ''Q1'' = ''Q1''"
    by (simp add: standardize_month_name_def MONTH_MAPPING_def)
  have q_miss: "standardize_month_name ''Q1'' \<notin> set month_name"
    by (simp add: q_std month_name_def)
  have q_none: "\<forall>i \<in> {1..12}. \<not> flexible (standardize_month_name ''Q1'') (month_name ! i)"
    by code_simp
  from q_miss q_none month_canonicalization [of "''Q1''"]
  have q_num: "get_month_number ''Q1'' = 1"
    by blast
  from mar mar_idx mar_num may may_std may_miss may_first may_num q_miss q_num
  show ?thesis by blast
qed

text \<open>
  The name that \<open>standardize_month_name\<close> returns for \<open>'Xyz'\<close> is \<open>'Xyz'\<close>, not \<open>'January'\<close>:
  the default to January exists only as the number 1 of \<open>get_month_number\<close>.
\<close>

theorem month_canonicalization_counterexample:
  "standardize_month_name ''Xyz'' = ''Xyz'' \<and> standardize_month_name ''Xyz'' \<noteq> ''January''"
  by (simp add: standardize_month_name_def MONTH_MAPPING_def)

text \<open>
  Claim C8. \<open>get_month_number\<close> returns a value for every string, but not always one of
  1 to 12: the empty string is the entry 0 of \<open>calendar.month_name\<close>, so the exact search
  finds it there and returns 0, although the docstring promises 1 to 12 and the fallback
  loop skips the entry 0.
\<close>

theorem get_month_number_empty_string:
  "get_month_number '''' = 0 \<and> getitem month_abbr (get_month_number '''') = Inr ''''"
  by (simp add: month_eval getitem_def month_abbr_def)

section \<open>Properties of the table operations\<close>

lemma drop_ignored_table:
  "drop_ignored s r cols = (s', r') \<Longrightarrow>
     heap s' r' = (heap s r)\<lparr>columns := filter (\<lambda>c. c \<notin> set cols) (columns (heap s r))\<rparr>"
proof (induction cols arbitrary: s r)
  case Nil
  then show ?case by simp
next
  case (Cons col cols)
  show ?case
  proof (cases "col \<in> set (columns (heap s r))")
    case True
    with Cons.prems have "drop_ignored (fst (alloc s (drop_column col (heap s r))))
        (next_ref s) cols = (s', r')"
      by (simp add: alloc_def)
    from Cons.IH [OF this] show ?thesis
      by (simp add: alloc_def drop_column_def conj_commute)
  next
    case False
    with Cons.prems have "drop_ignored s r cols = (s', r')" by simp
    moreover from False
    have "filter (\<lambda>c. c \<notin> set (col # cols)) (columns (heap s r)) =
          filter (\<lambda>c. c \<notin> set cols) (columns (heap s r))"
      by (intro filter_cong) auto
    ultimately show ?thesis
      using Cons.IH [of s r] by simp
  qed
qed

lemma drop_ignored_frame:
  "drop_ignored s r cols = (s', r') \<Longrightarrow>
     warnings s' = warnings s \<and> next_ref s \<le> next_ref s' \<and>
     (\<forall>q < next_ref s. heap s' q = heap s q) \<and>
     (if \<exists>c \<in> set cols. c \<in> set (columns (heap s r))
      then next_ref s \<le> r' \<and> r' < next_ref s' else r' = r \<and> s' = s)"
proof (induction cols arbitrary: s r)
  case Nil
  then show ?case by simp
next
  case (Cons col cols)
  show ?case
  proof (cases "col \<in> set (columns (heap s r))")
    case True
    let ?s1 = "fst (alloc s (drop_column col (heap s r)))"
    from True Cons.prems have step: "drop_ignored ?s1 (next_ref s) cols = (s', r')"
      by (simp add: alloc_def)
    have s1: "warnings ?s1 = warnings s" "next_ref ?s1 = Suc (next_ref s)"
      "\<And>q. q < next_ref s \<Longrightarrow> heap ?s1 q = heap s q"
      by (simp_all add: alloc_def)
    from Cons.IH [OF step] s1 True show ?thesis
      by (auto split: if_splits)
  next
    case False
    with Cons.prems have "drop_ignored s r cols = (s', r')" by simp
    from Cons.IH [OF this] False show ?thesis
      by (auto split: if_splits)
  qed
qed

lemma zip_map_same: "map (\<lambda>(x, v). g x v) (zip xs (map f xs)) = map (\<lambda>x. g x (f x)) xs"
  by (induction xs) simp_all

lemma column_astype_float_Inr:
  "column_astype_float col df = Inr vs \<longleftrightarrow>
     (\<forall>row \<in> set (rows df). \<not> is_text (row col)) \<and> vs = map (\<lambda>row. to_float (row col)) (rows df)"
  by (auto simp: column_astype_float_def)

lemma column_astype_float_Inl:
  "column_astype_float col df = Inl ex \<longleftrightarrow>
     (\<exists>row \<in> set (rows df). is_text (row col)) \<and> ex = ValueError"
  by (auto simp: column_astype_float_def)

lemma converted_single: "converted [col] row = row(col := to_float (row col))"
  by (simp add: converted_def fun_eq_iff)

lemma setitem_astype:
  "col \<in> set (columns df) \<Longrightarrow>
   setitem col (map (\<lambda>row. to_float (row col)) (rows df)) df = as_float [col] df"
  by (simp add: setitem_def as_float_def zip_map_same converted_single)

lemma is_text_to_float [simp]: "is_text (to_float c) = is_text c"
  by (cases c) simp_all

lemma to_float_idem [simp]: "to_float (to_float c) = to_float c"
  by (cases c) simp_all

lemma converted_Cons: "converted cols (converted [col] row) = converted (col # cols) row"
  by (auto simp: converted_def fun_eq_iff)

lemma as_float_Cons: "as_float cols (as_float [col] df) = as_float (col # cols) df"
  by (simp add: as_float_def converted_Cons)

lemma as_float_Nil [simp]: "as_float [] df = df"
proof -
  have "converted [] = (\<lambda>row. row)" by (simp add: converted_def fun_eq_iff)
  then show ?thesis by (simp add: as_float_def)
qed

lemma columns_as_float [simp]: "columns (as_float cols df) = columns df"
  by (simp add: as_float_def)

lemma rows_as_float: "rows (as_float cols df) = map (converted cols) (rows df)"
  by (simp add: as_float_def)

lemma astype_loop_frame:
  "astype_loop s r cols = (s', res) \<Longrightarrow>
     warnings s' = warnings s \<and> next_ref s' = next_ref s \<and>
     (\<forall>q. q \<noteq> r \<longrightarrow> heap s' q = heap s q)"
proof (induction cols arbitrary: s)
  case Nil
  then show ?case by simp
next
  case (Cons col cols)
  show ?case
  proof (cases "column_astype_float col (heap s r)")
    case (Inl ex)
    with Cons.prems show ?thesis by simp
  next
    case (Inr vs)
    with Cons.prems have
      "astype_loop (s\<lparr>heap := (heap s)(r := setitem col vs (heap s r))\<rparr>) r cols = (s', res)"
      by simp
    from Cons.IH [OF this] show ?thesis by simp
  qed
qed

lemma astype_loop_None:
  "set cols \<subseteq> set (columns (heap s r)) \<Longrightarrow>
   (\<forall>row \<in> set (rows (heap s r)). \<forall>c \<in> set cols. \<not> is_text (row c)) \<Longrightarrow>
   \<exists>s'. astype_loop s r cols = (s', None) \<and> heap s' r = as_float cols (heap s r)"
proof (induction cols arbitrary: s)
  case Nil
  then show ?case by simp
next
  case (Cons col cols)
  let ?df = "heap s r"
  let ?s1 = "s\<lparr>heap := (heap s)(r := as_float [col] ?df)\<rparr>"
  from Cons.prems have col: "col \<in> set (columns ?df)" by simp
  from Cons.prems have "column_astype_float col ?df = Inr (map (\<lambda>row. to_float (row col)) (rows ?df))"
    by (simp add: column_astype_float_Inr)
  then have step: "astype_loop s r (col # cols) = astype_loop ?s1 r cols"
    using col by (simp add: setitem_astype)
  have "set cols \<subseteq> set (columns (heap ?s1 r))"
    using Cons.prems by simp
  moreover have "\<forall>row \<in> set (rows (heap ?s1 r)). \<forall>c \<in> set cols. \<not> is_text (row c)"
    using Cons.prems by (auto simp: rows_as_float converted_def)
  ultimately obtain s' where "astype_loop ?s1 r cols = (s', None)"
    and "heap s' r = as_float cols (heap ?s1 r)"
    using Cons.IH [of ?s1] by blast
  with step show ?case by (simp add: as_float_Cons)
qed

lemma astype_loop_Some:
  "set cols \<subseteq> set (columns (heap s r)) \<Longrightarrow>
   \<exists>row \<in> set (rows (heap s r)). \<exists>c \<in> set cols. is_text (row c) \<Longrightarrow>
   \<exists>s'. astype_loop s r cols = (s', Some ValueError)"
proof (induction cols arbitrary: s)
  case Nil
  then show ?case by simp
next
  case (Cons col cols)
  let ?df = "heap s r"
  show ?case
  proof (cases "\<exists>row \<in> set (rows ?df). is_text (row col)")
    case True
    then have "column_astype_float col ?df = Inl ValueError"
      by (simp add: column_astype_float_Inl)
    then show ?thesis by simp
  next
    case False
    let ?s1 = "s\<lparr>heap := (heap s)(r := as_float [col] ?df)\<rparr>"
    from Cons.prems have col: "col \<in> set (columns ?df)" by simp
    from False have "column_astype_float col ?df = Inr (map (\<lambda>row. to_float (row col)) (rows ?df))"
      by (simp add: column_astype_float_Inr)
    then have step: "astype_loop s r (col # cols) = astype_loop ?s1 r cols"
      using col by (simp add: setitem_astype)
    have "set cols \<subseteq> set (columns (heap ?s1 r))"
      using Cons.prems by simp
    moreover have "\<exists>row \<in> set (rows (heap ?s1 r)). \<exists>c \<in> set cols. is_text (row c)"
    proof -
      from Cons.prems(2) obtain row c where row: "row \<in> set (rows ?df)"
        and c: "c \<in> set (col # cols)" and textual: "is_text (row c)"
        by blast
      from False row textual have "c \<noteq> col" by blast
      with c have "c \<in> set cols" by simp
      moreover from textual have "is_text (converted [col] row c)"
        by (auto simp: converted_def)
      moreover from row have "converted [col] row \<in> set (rows (heap ?s1 r))"
        by (simp add: rows_as_float)
      ultimately show ?thesis by blast
    qed
    ultimately show ?thesis
      using Cons.IH [of ?s1] step by simp
  qed
qed

section \<open>The result of the reconciliation\<close>

lemma mapping_combined:
  "PROJECT_NAME_MAPPING c = Some (Combined ps) \<Longrightarrow> c = ''Vars/Vita.''"
  by (simp add: PROJECT_NAME_MAPPING_def split: if_splits)

lemma standardize_project_Inr:
  "\<exists>p a. standardize_project L e c = Inr (p, a)"
proof (cases "PROJECT_NAME_MAPPING c")
  case None
  then show ?thesis by (simp add: standardize_project_def)
next
  case (Some v)
  show ?thesis
  proof (cases v)
    case (Single p)
    with Some show ?thesis by (simp add: standardize_project_def)
  next
    case (Combined ps)
    with Some have "c = ''Vars/Vita.''" by (simp add: mapping_combined)
    with Some show ?thesis by (simp add: standardize_project_def)
  qed
qed

lemma allocated_Inr: "\<not> is_text c \<Longrightarrow> \<exists>x. allocated c = Inr x"
  by (cases c) simp_all

lemma cell_records_Inr:
  assumes "\<not> is_text (row c)"
  shows "cell_records L row e c = Inr (records_of (cell_records L row e c))"
proof -
  from assms obtain x where x: "allocated (row c) = Inr x"
    using allocated_Inr by blast
  obtain p a where pa: "standardize_project L e c = Inr (p, a)"
    using standardize_project_Inr by blast
  from x pa show ?thesis
    by (cases x) (simp_all add: cell_records_def records_of_def)
qed

lemma project_loop_lines:
  "\<forall>c \<in> set pcs. \<not> is_text (row c) \<Longrightarrow>
   project_loop L row (row ''Name'') pcs = Inr (row_lines L pcs row)"
proof (induction pcs)
  case Nil
  then show ?case by (simp add: row_lines_def)
next
  case (Cons c pcs)
  then have here: "cell_records L row (row ''Name'') c = Inr (cell_lines L row c)"
    using cell_records_Inr [of row c L "row ''Name''"] by (simp add: cell_lines_def)
  from Cons have "project_loop L row (row ''Name'') pcs = Inr (row_lines L pcs row)"
    by simp
  with here show ?case by (simp add: row_lines_def)
qed

lemma iterrows_loop_lines:
  "''Name'' \<in> set cols \<Longrightarrow>
   \<forall>row \<in> set rws. \<forall>c \<in> set pcs. \<not> is_text (row c) \<Longrightarrow>
   iterrows_loop L cols pcs rws = Inr (concat (map (row_lines L pcs) rws))"
proof (induction rws)
  case Nil
  then show ?case by simp
next
  case (Cons row rws)
  then have "project_loop L row (row ''Name'') pcs = Inr (row_lines L pcs row)"
    by (simp add: project_loop_lines)
  moreover from Cons have "iterrows_loop L cols pcs rws = Inr (concat (map (row_lines L pcs) rws))"
    by simp
  ultimately show ?case using Cons.prems(1) by simp
qed

lemma iterrows_loop_KeyError:
  "''Name'' \<notin> set cols \<Longrightarrow> rws \<noteq> [] \<Longrightarrow> iterrows_loop L cols pcs rws = Inl KeyError"
  by (cases rws) simp_all

lemma columns_dropped_Name: "''Name'' \<in> set (columns (dropped df)) \<longleftrightarrow> ''Name'' \<in> set (columns df)"
  by (simp add: dropped_def IGNORED_COLUMNS_def)

lemma rows_dropped [simp]: "rows (dropped df) = rows df"
  by (simp add: dropped_def)

lemma drop_ignored_dropped:
  "drop_ignored s r IGNORED_COLUMNS = (s1, r1) \<Longrightarrow> heap s1 r1 = dropped (heap s r)"
  by (simp add: drop_ignored_table dropped_def)

lemma converted_not_text:
  "\<not> is_text (row c) \<Longrightarrow> \<not> is_text (converted cols row c)"
  by (simp add: converted_def)

lemma process_result:
  "snd (process_allocation_csv e s r m y) =
     (if \<not> numeric_table (heap s r) then Inl ValueError
      else case fetch_valid_users e of
             Inl ex \<Rightarrow> Inl ex
           | Inr valid_users \<Rightarrow>
               if ''Name'' \<notin> set (columns (heap s r)) \<and> rows (heap s r) \<noteq> [] then Inl KeyError
               else Inr (report (snd (fetch_all_actual_hours e m y)) (heap s r)))"
proof -
  let ?df = "heap s r"
  let ?ncs = "numeric_cols ?df"
  obtain s1 r1 where d: "drop_ignored s r IGNORED_COLUMNS = (s1, r1)"
    by (cases "drop_ignored s r IGNORED_COLUMNS")
  then have h1: "heap s1 r1 = dropped ?df" by (rule drop_ignored_dropped)
  then have ncs: "filter (\<lambda>col. col \<noteq> ''Name'') (columns (heap s1 r1)) = ?ncs"
    by (simp add: numeric_cols_def)
  have sub: "set ?ncs \<subseteq> set (columns (heap s1 r1))"
    by (auto simp: numeric_cols_def h1)
  show ?thesis
  proof (cases "numeric_table ?df")
    case False
    then have "\<exists>row \<in> set (rows (heap s1 r1)). \<exists>c \<in> set ?ncs. is_text (row c)"
      by (simp add: numeric_table_def h1)
    from astype_loop_Some [OF sub this] obtain s2 where
      "astype_loop s1 r1 ?ncs = (s2, Some ValueError)" by blast
    with d ncs False show ?thesis
      by (simp add: process_allocation_csv_def)
  next
    case True
    then have "\<forall>row \<in> set (rows (heap s1 r1)). \<forall>c \<in> set ?ncs. \<not> is_text (row c)"
      by (simp add: numeric_table_def h1)
    from astype_loop_None [OF sub this] obtain s2 where
      a: "astype_loop s1 r1 ?ncs = (s2, None)" and h2: "heap s2 r1 = as_float ?ncs (heap s1 r1)"
      by blast
    have cols2: "columns (heap s2 r1) = columns (dropped ?df)"
      and rows2: "rows (heap s2 r1) = map (converted ?ncs) (rows ?df)"
      by (simp_all add: h2 h1 rows_as_float)
    have pcs: "filter (\<lambda>col. col \<noteq> ''Name'') (columns (heap s2 r1)) = ?ncs"
      by (simp add: cols2 numeric_cols_def)
    show ?thesis
    proof (cases "fetch_valid_users e")
      case (Inl ex)
      with d ncs a True show ?thesis
        by (simp add: process_allocation_csv_def)
    next
      case (Inr valid_users)
      obtain shown L where f: "fetch_all_actual_hours e m y = (shown, L)"
        by (cases "fetch_all_actual_hours e m y")
      have loop: "iterrows_loop L (columns (dropped ?df)) ?ncs (map (converted ?ncs) (rows ?df)) =
        (if ''Name'' \<notin> set (columns ?df) \<and> rows ?df \<noteq> [] then Inl KeyError
         else Inr (concat (map (row_lines L ?ncs) (map (converted ?ncs) (rows ?df)))))"
      proof (cases "''Name'' \<in> set (columns ?df)")
        case True
        have "\<forall>row \<in> set (map (converted ?ncs) (rows ?df)). \<forall>c \<in> set ?ncs. \<not> is_text (row c)"
          using \<open>numeric_table ?df\<close> by (auto simp: numeric_table_def converted_not_text)
        with True show ?thesis
          by (simp add: iterrows_loop_lines columns_dropped_Name)
      next
        case False
        show ?thesis
        proof (cases "rows ?df = []")
          case True
          then show ?thesis by simp
        next
          case nonempty: False
          with False show ?thesis
            by (simp add: iterrows_loop_KeyError columns_dropped_Name)
        qed
      qed
      from d ncs a True Inr f pcs loop show ?thesis
        by (simp add: process_allocation_csv_def cols2 rows2 report_def o_def)
    qed
  qed
qed

lemma process_store_unfold:
  assumes "drop_ignored s r IGNORED_COLUMNS = (s1, r1)"
    and "astype_loop s1 r1 (filter (\<lambda>col. col \<noteq> ''Name'') (columns (heap s1 r1))) = (s2, res)"
  shows "fst (process_allocation_csv e s r m y) =
     (case res of
        Some ex \<Rightarrow> s2
      | None \<Rightarrow>
          (case fetch_valid_users e of
             Inl ex \<Rightarrow> s2
           | Inr valid_users \<Rightarrow> s2\<lparr>warnings := warnings s2 @ fst (fetch_all_actual_hours e m y)\<rparr>))"
  using assms
  by (simp add: process_allocation_csv_def Let_def split: option.splits sum.splits prod.splits)

lemma dropped_same:
  "\<forall>c \<in> set IGNORED_COLUMNS. c \<notin> set (columns df) \<Longrightarrow> dropped df = df"
proof -
  assume "\<forall>c \<in> set IGNORED_COLUMNS. c \<notin> set (columns df)"
  then have "filter (\<lambda>c. c \<notin> set IGNORED_COLUMNS) (columns df) = columns df"
    by (intro filter_True) auto
  then show ?thesis by (simp add: dropped_def)
qed

lemma process_store:
  assumes r: "r < next_ref s"
  shows "(\<forall>q < next_ref s. q \<noteq> r \<longrightarrow> heap (fst (process_allocation_csv e s r m y)) q = heap s q) \<and>
     ((\<exists>c \<in> set IGNORED_COLUMNS. c \<in> set (columns (heap s r))) \<longrightarrow>
        heap (fst (process_allocation_csv e s r m y)) r = heap s r) \<and>
     ((\<forall>c \<in> set IGNORED_COLUMNS. c \<notin> set (columns (heap s r))) \<and> numeric_table (heap s r) \<longrightarrow>
        heap (fst (process_allocation_csv e s r m y)) r =
        as_float (numeric_cols (heap s r)) (heap s r))"
proof -
  let ?df = "heap s r"
  let ?ncs = "numeric_cols ?df"
  let ?s' = "fst (process_allocation_csv e s r m y)"
  obtain s1 r1 where d: "drop_ignored s r IGNORED_COLUMNS = (s1, r1)"
    by (cases "drop_ignored s r IGNORED_COLUMNS")
  then have h1: "heap s1 r1 = dropped ?df" by (rule drop_ignored_dropped)
  then have ncs: "filter (\<lambda>col. col \<noteq> ''Name'') (columns (heap s1 r1)) = ?ncs"
    by (simp add: numeric_cols_def)
  obtain s2 res where a: "astype_loop s1 r1 ?ncs = (s2, res)"
    by (cases "astype_loop s1 r1 ?ncs")
  from process_store_unfold [OF d, of s2 res e m y] a ncs
  have heap': "heap ?s' = heap s2"
    by (simp split: option.splits sum.splits)
  from drop_ignored_frame [OF d]
  have f1: "\<forall>q < next_ref s. heap s1 q = heap s q"
    and alt: "if \<exists>c \<in> set IGNORED_COLUMNS. c \<in> set (columns ?df)
      then next_ref s \<le> r1 else r1 = r \<and> s1 = s"
    by (simp_all split: if_splits)
  from astype_loop_frame [OF a]
  have f2: "\<forall>q. q \<noteq> r1 \<longrightarrow> heap s2 q = heap s1 q"
    by simp
  have part1: "\<forall>q < next_ref s. q \<noteq> r \<longrightarrow> heap ?s' q = heap s q"
  proof (intro allI impI)
    fix q assume q: "q < next_ref s" "q \<noteq> r"
    with alt have "q \<noteq> r1" by (auto split: if_splits)
    with f1 f2 q show "heap ?s' q = heap s q" by (simp add: heap')
  qed
  have part2: "heap ?s' r = heap s r" if "\<exists>c \<in> set IGNORED_COLUMNS. c \<in> set (columns ?df)"
  proof -
    from that alt have "next_ref s \<le> r1" by simp
    with r have "r \<noteq> r1" by simp
    with f1 f2 r show ?thesis by (simp add: heap')
  qed
  have part3: "heap ?s' r = as_float ?ncs ?df"
    if none: "\<forall>c \<in> set IGNORED_COLUMNS. c \<notin> set (columns ?df)" and num: "numeric_table ?df"
  proof -
    from none alt have same: "r1 = r" "s1 = s" by auto
    have sub: "set ?ncs \<subseteq> set (columns (heap s1 r1))"
      by (auto simp: numeric_cols_def h1)
    from num have "\<forall>row \<in> set (rows (heap s1 r1)). \<forall>c \<in> set ?ncs. \<not> is_text (row c)"
      by (simp add: numeric_table_def h1)
    from astype_loop_None [OF sub this] a
    have "heap s2 r1 = as_float ?ncs (heap s1 r1)" by auto
    with same show ?thesis by (simp add: heap')
  qed
  from part1 part2 part3 show ?thesis by blast
qed

lemma process_warnings:
  "warnings (fst (process_allocation_csv e s r m y)) =
     warnings s @
     (if numeric_table (heap s r) \<and> (\<exists>us. fetch_valid_users e = Inr us)
      then fst (fetch_all_actual_hours e m y) else [])"
proof -
  let ?df = "heap s r"
  let ?ncs = "numeric_cols ?df"
  obtain s1 r1 where d: "drop_ignored s r IGNORED_COLUMNS = (s1, r1)"
    by (cases "drop_ignored s r IGNORED_COLUMNS")
  then have h1: "heap s1 r1 = dropped ?df" by (rule drop_ignored_dropped)
  then have ncs: "filter (\<lambda>col. col \<noteq> ''Name'') (columns (heap s1 r1)) = ?ncs"
    by (simp add: numeric_cols_def)
  obtain s2 res where a: "astype_loop s1 r1 ?ncs = (s2, res)"
    by (cases "astype_loop s1 r1 ?ncs")
  from drop_ignored_frame [OF d] astype_loop_frame [OF a]
  have w: "warnings s2 = warnings s" by simp
  have sub: "set ?ncs \<subseteq> set (columns (heap s1 r1))"
    by (auto simp: numeric_cols_def h1)
  have res: "res = None \<longleftrightarrow> numeric_table ?df"
  proof (cases "numeric_table ?df")
    case True
    then have "\<forall>row \<in> set (rows (heap s1 r1)). \<forall>c \<in> set ?ncs. \<not> is_text (row c)"
      by (simp add: numeric_table_def h1)
    from astype_loop_None [OF sub this] a True show ?thesis by auto
  next
    case False
    then have "\<exists>row \<in> set (rows (heap s1 r1)). \<exists>c \<in> set ?ncs. is_text (row c)"
      by (simp add: numeric_table_def h1)
    from astype_loop_Some [OF sub this] a False show ?thesis by auto
  qed
  from process_store_unfold [OF d, of s2 res e m y] a ncs res w
  show ?thesis
    by (auto split: option.splits sum.splits)
qed

lemma set_sort_values [simp]: "set (sort_values xs) = set xs"
  by (simp add: sort_values_def)

lemma report_iff:
  "rec \<in> set (report L df) \<longleftrightarrow>
     (\<exists>row \<in> set (rows df). \<exists>c \<in> set (numeric_cols df).
        rec \<in> set (cell_lines L (converted (numeric_cols df) row) c))"
  by (auto simp: report_def row_lines_def)


lemma allocated_to_float [simp]: "allocated (to_float c) = allocated c"
  by (cases c) simp_all

lemma allocated_converted [simp]: "allocated (converted cols row c) = allocated (row c)"
  by (simp add: converted_def)

lemma cell_lines_cases:
  assumes "rec \<in> set (cell_lines L row c)"
  obtains x p a where "allocated (row c) = Inr (Some x)"
    and "standardize_project L (row ''Name'') c = Inr (p, a)"
    and "rec = \<lparr>Name = row ''Name'', Project = p, Expected_Hours = x, Actual_Hours = a,
                 Completion = completion_percentage x a\<rparr>"
  using assms
  by (auto simp: cell_lines_def cell_records_def records_of_def
      split: sum.splits option.splits prod.splits)

lemma cell_lines_allocated:
  assumes "allocated (row c) = Inr (Some x)"
    and "standardize_project L (row ''Name'') c = Inr (p, a)"
  shows "cell_lines L row c =
    [\<lparr>Name = row ''Name'', Project = p, Expected_Hours = x, Actual_Hours = a,
      Completion = completion_percentage x a\<rparr>]"
  using assms by (simp add: cell_lines_def cell_records_def records_of_def)

lemma cell_lines_skipped:
  "\<forall>x. allocated (row c) \<noteq> Inr (Some x) \<Longrightarrow> cell_lines L row c = []"
  by (auto simp: cell_lines_def cell_records_def records_of_def
      split: sum.splits option.splits prod.splits)

lemma round_half_even_nonneg: "0 \<le> x \<Longrightarrow> 0 \<le> round_half_even x"
  by (auto simp: round_half_even_def Let_def)

lemma py_round_nonneg: "0 \<le> x \<Longrightarrow> 0 \<le> py_round x n"
  by (simp add: py_round_def round_half_even_nonneg)

lemma completion_percentage_range:
  "0 \<le> a \<Longrightarrow> 0 \<le> completion_percentage x a \<and> completion_percentage x a \<le> 100"
  by (simp add: completion_percentage_def py_round_nonneg)

lemma completion_percentage_le: "completion_percentage x a \<le> 100"
  by (simp add: completion_percentage_def)

lemma lookup_get_nonneg:
  "\<forall>k v. L k = Some v \<longrightarrow> 0 \<le> v \<Longrightarrow> 0 \<le> lookup_get L k"
  by (cases k) (auto simp: lookup_get_def split: option.splits)

lemma standardize_project_Vars:
  "standardize_project L e ''Vars/Vita.'' =
     Inr (''VARS/Vitawerks'',
          lookup_get L (e, StrCell ''VARS'') + lookup_get L (e, StrCell ''Vitawerks''))"
  by (simp add: standardize_project_def PROJECT_NAME_MAPPING_def)

lemma standardize_project_other:
  assumes "c \<noteq> ''Vars/Vita.''" and "standardize_project L e c = Inr (p, a)"
  shows "a = lookup_get L (e, StrCell p)"
  using assms
  by (auto simp: standardize_project_def split: option.splits pname.splits)

lemma standardize_project_nonneg:
  assumes "\<forall>k v. L k = Some v \<longrightarrow> 0 \<le> v" and "standardize_project L e c = Inr (p, a)"
  shows "0 \<le> a"
proof (cases "c = ''Vars/Vita.''")
  case True
  with assms(2) have "a = lookup_get L (e, StrCell ''VARS'') + lookup_get L (e, StrCell ''Vitawerks'')"
    by (simp add: standardize_project_Vars)
  with lookup_get_nonneg [OF assms(1)] show ?thesis by simp
next
  case False
  from standardize_project_other [OF False assms(2)] have "a = lookup_get L (e, StrCell p)" .
  with lookup_get_nonneg [OF assms(1)] show ?thesis by simp
qed

lemma process_success:
  assumes "snd (process_allocation_csv e s r m y) = Inr recs"
  shows "recs = report (snd (fetch_all_actual_hours e m y)) (heap s r)"
    and "numeric_table (heap s r)"
    and "\<exists>us. fetch_valid_users e = Inr us"
    and "''Name'' \<in> set (columns (heap s r)) \<or> rows (heap s r) = []"
  using assms unfolding process_result
  by (auto split: if_splits sum.splits)

section \<open>Counting the lines of the combined project\<close>

lemma length_filter_sort_values:
  "length (filter P (sort_values xs)) = length (filter P xs)"
  by (simp add: sort_values_def filter_sort)

lemma length_filter_concat_map:
  "length (filter P (concat (map f xs))) = sum_list (map (\<lambda>x. length (filter P (f x))) xs)"
  by (induction xs) simp_all

lemma length_filter_sum_list:
  "length (filter Q xs) = sum_list (map (\<lambda>x. if Q x then 1 else 0) xs)"
  by (induction xs) simp_all

lemma sum_list_single:
  "distinct xs \<Longrightarrow> a \<in> set xs \<Longrightarrow> \<forall>x \<in> set xs. x \<noteq> a \<longrightarrow> g x = (0::nat) \<Longrightarrow>
   sum_list (map g xs) = g a"
proof (induction xs)
  case Nil
  then show ?case by simp
next
  case (Cons x xs)
  show ?case
  proof (cases "x = a")
    case True
    with Cons.prems have "\<forall>z \<in> set xs. g z = 0" by auto
    then have "sum_list (map g xs) = 0" by (induction xs) simp_all
    with True show ?thesis by simp
  next
    case False
    with Cons show ?thesis by auto
  qed
qed

lemma project_not_combined:
  assumes "c \<noteq> ''Vars/Vita.''" and "c \<noteq> ''VARS/Vitawerks''"
    and "standardize_project L e c = Inr (p, a)"
  shows "p \<noteq> ''VARS/Vitawerks''"
  using assms
  by (auto simp: standardize_project_def PROJECT_NAME_MAPPING_def
      split: option.splits pname.splits if_splits)

lemma has_allocation_iff: "has_allocation c \<longleftrightarrow> (\<exists>x. allocated c = Inr (Some x))"
  by (auto simp: has_allocation_def split: sum.splits option.splits)

lemma numeric_cols_facts:
  "set (numeric_cols df) \<subseteq> set (columns df)" "''Name'' \<notin> set (numeric_cols df)"
  "distinct (columns df) \<Longrightarrow> distinct (numeric_cols df)"
  by (auto simp: numeric_cols_def dropped_def)

lemma Vars_numeric_col:
  "''Vars/Vita.'' \<in> set (columns df) \<Longrightarrow> ''Vars/Vita.'' \<in> set (numeric_cols df)"
  by (simp add: numeric_cols_def dropped_def IGNORED_COLUMNS_def)

lemma converted_Name: "''Name'' \<notin> set cols \<Longrightarrow> converted cols row ''Name'' = row ''Name''"
  by (simp add: converted_def)

lemma cell_lines_Vars:
  "cell_lines L row ''Vars/Vita.'' =
     (case allocated (row ''Vars/Vita.'') of
        Inr (Some x) \<Rightarrow>
          [\<lparr>Name = row ''Name'', Project = ''VARS/Vitawerks'', Expected_Hours = x,
            Actual_Hours = lookup_get L (row ''Name'', StrCell ''VARS'') +
                           lookup_get L (row ''Name'', StrCell ''Vitawerks''),
            Completion = completion_percentage x
              (lookup_get L (row ''Name'', StrCell ''VARS'') +
               lookup_get L (row ''Name'', StrCell ''Vitawerks''))\<rparr>]
      | _ \<Rightarrow> [])"
  by (simp add: cell_lines_def cell_records_def records_of_def standardize_project_Vars
      split: sum.splits option.splits)

lemma cell_lines_not_combined:
  assumes "c \<noteq> ''Vars/Vita.''" and "c \<noteq> ''VARS/Vitawerks''"
    and "rec \<in> set (cell_lines L row c)"
  shows "Project rec \<noteq> ''VARS/Vitawerks''"
proof -
  from assms(3) obtain x p a where "standardize_project L (row ''Name'') c = Inr (p, a)"
    and "rec = \<lparr>Name = row ''Name'', Project = p, Expected_Hours = x, Actual_Hours = a,
                 Completion = completion_percentage x a\<rparr>"
    by (rule cell_lines_cases)
  with project_not_combined [OF assms(1,2)] show ?thesis by simp
qed

lemma row_lines_combined_count:
  assumes "distinct pcs" and "''Vars/Vita.'' \<in> set pcs" and "''VARS/Vitawerks'' \<notin> set pcs"
  shows "length (filter (\<lambda>rec. Name rec = n \<and> Project rec = ''VARS/Vitawerks'') (row_lines L pcs row)) =
     (if row ''Name'' = n \<and> has_allocation (row ''Vars/Vita.'') then 1 else 0)"
proof -
  let ?P = "\<lambda>rec. Name rec = n \<and> Project rec = ''VARS/Vitawerks''"
  let ?g = "\<lambda>c. length (filter ?P (cell_lines L row c))"
  have zero: "\<forall>c \<in> set pcs. c \<noteq> ''Vars/Vita.'' \<longrightarrow> ?g c = 0"
  proof (intro ballI impI)
    fix c assume "c \<in> set pcs" "c \<noteq> ''Vars/Vita.''"
    with assms(3) have "c \<noteq> ''VARS/Vitawerks''" by auto
    with \<open>c \<noteq> ''Vars/Vita.''\<close> have "\<forall>rec \<in> set (cell_lines L row c). \<not> ?P rec"
      using cell_lines_not_combined by blast
    then show "?g c = 0" by (simp add: filter_empty_conv)
  qed
  have "length (filter ?P (row_lines L pcs row)) = sum_list (map ?g pcs)"
    by (simp add: row_lines_def length_filter_concat_map)
  also have "\<dots> = ?g ''Vars/Vita.''"
    using assms(1,2) zero by (rule sum_list_single)
  also have "\<dots> = (if row ''Name'' = n \<and> has_allocation (row ''Vars/Vita.'') then 1 else 0)"
    by (simp add: cell_lines_Vars has_allocation_def split: sum.splits option.splits)
  finally show ?thesis .
qed

section \<open>The example runs\<close>

lemmas example_eval =
  process_allocation_csv_def IGNORED_COLUMNS_def example_store_def example_env_def users_df_def
  table_row_def fetch_valid_users_def fetch_all_actual_hours_def df_empty_def
  column_astype_float_def setitem_def getitem_def month_abbr_def month_eval
  grouped_lookup_def lookup_get_def py_round_def round_half_even_def sort_values_def
  sort_key_of_def cell_records_def standardize_project_def PROJECT_NAME_MAPPING_def
  completion_percentage_def alloc_def drop_column_def Let_def

lemma alice_run:
  "snd (process_allocation_csv (example_env alice_tickets) (example_store alice_df) 0 ''Mar'' ''2025'') =
     Inr [\<lparr>Name = StrCell ''Alice'', Project = ''SDI'', Expected_Hours = 10,
           Actual_Hours = 15, Completion = 100\<rparr>]"
  by (simp add: example_eval alice_df_def alice_tickets_def)

lemma alice_lookup:
  "snd (fetch_all_actual_hours (example_env alice_tickets) ''Mar'' ''2025'') =
     [(StrCell ''Alice'', StrCell ''SDI'') \<mapsto> 15]"
  by (simp add: example_eval alice_tickets_def fun_eq_iff)

lemma bob_run:
  "snd (process_allocation_csv (example_env bob_tickets) (example_store bob_df) 0 ''Mar'' ''2025'') =
     Inr [\<lparr>Name = StrCell ''Bob'', Project = ''VARS/Vitawerks'', Expected_Hours = 10,
           Actual_Hours = 7, Completion = 70\<rparr>]"
  by (simp add: example_eval bob_df_def bob_tickets_def)

lemma carol_run:
  "snd (process_allocation_csv (example_env alice_tickets) (example_store carol_df) 0 ''Mar'' ''2025'') =
     Inr [\<lparr>Name = StrCell ''Carol'', Project = ''Phoenix'', Expected_Hours = 8,
           Actual_Hours = 0, Completion = 0\<rparr>]"
  by (simp add: example_eval carol_df_def alice_tickets_def)

section \<open>The completion percentage\<close>



text \<open>
  Claim C3. When no value of the actual-hours lookup is negative, every record that
  \<open>process_allocation_csv\<close> returns has a completion percentage from 0 to 100.
\<close>

theorem completion_in_range:
  assumes "snd (process_allocation_csv e s df m y) = Inr recs"
    and "\<forall>k v. snd (fetch_all_actual_hours e m y) k = Some v \<longrightarrow> 0 \<le> v"
    and "rec \<in> set recs"
  shows "0 \<le> Completion rec \<and> Completion rec \<le> 100"
proof -
  let ?L = "snd (fetch_all_actual_hours e m y)"
  from assms(1,3) obtain row c where "rec \<in> set (cell_lines ?L row c)"
    using process_success(1) [OF assms(1)] by (auto simp: report_iff)
  then obtain x p a where pa: "standardize_project ?L (row ''Name'') c = Inr (p, a)"
    and rec: "rec = \<lparr>Name = row ''Name'', Project = p, Expected_Hours = x, Actual_Hours = a,
                 Completion = completion_percentage x a\<rparr>"
    by (rule cell_lines_cases)
  from assms(2) pa have "0 \<le> a" by (rule standardize_project_nonneg)
  with rec show ?thesis by (simp add: completion_percentage_range)
qed

theorem completion_in_range_witness:
  "snd (process_allocation_csv (example_env alice_tickets) (example_store alice_df) 0 ''Mar'' ''2025'') =
     Inr [\<lparr>Name = StrCell ''Alice'', Project = ''SDI'', Expected_Hours = 10,
           Actual_Hours = 15, Completion = 100\<rparr>] \<and>
   snd (fetch_all_actual_hours (example_env alice_tickets) ''Mar'' ''2025'') =
     [(StrCell ''Alice'', StrCell ''SDI'') \<mapsto> 15] \<and>
   0 \<le> Completion \<lparr>Name = StrCell ''Alice'', Project = ''SDI'', Expected_Hours = 10,
           Actual_Hours = 15, Completion = 100\<rparr> \<and>
   Completion \<lparr>Name = StrCell ''Alice'', Project = ''SDI'', Expected_Hours = 10,
           Actual_Hours = 15, Completion = 100\<rparr> \<le> 100"
proof -
  let ?rec = "\<lparr>Name = StrCell ''Alice'', Project = ''SDI'', Expected_Hours = 10,
           Actual_Hours = 15, Completion = 100\<rparr>"
  have nonneg: "\<forall>k v. snd (fetch_all_actual_hours (example_env alice_tickets) ''Mar'' ''2025'') k = Some v
      \<longrightarrow> 0 \<le> v"
    by (simp add: alice_lookup)
  have "?rec \<in> set [?rec]" by simp
  from completion_in_range [OF alice_run nonneg this] alice_run alice_lookup
  show ?thesis by simp
qed

section \<open>The combined project\<close>

lemma has_allocation_converted [simp]:
  "has_allocation (converted cols row c) = has_allocation (row c)"
  by (simp add: has_allocation_def)

lemma cell_records_Vars:
  "allocated (row ''Vars/Vita.'') = Inr (Some x) \<Longrightarrow>
   cell_records L row (row ''Name'') ''Vars/Vita.'' = Inr [combined_record L row x]"
  by (simp add: cell_records_def standardize_project_Vars combined_record_def)

text \<open>
  Claim C2. A row whose \<open>Vars/Vita.\<close> cell is positive makes the loop body append
  exactly one record for that cell: it has the project name \<open>VARS/Vitawerks\<close>, which is
  neither \<open>VARS\<close> nor \<open>Vitawerks\<close>, and its actual hours are the sum of the lookup values
  of the employee for \<open>VARS\<close> and for \<open>Vitawerks\<close>, a missing value counting as 0. That
  record is in the report. In a table with distinct labels and no column that is itself
  labelled \<open>VARS/Vitawerks\<close>, the report has for each employee name as many records
  under \<open>VARS/Vitawerks\<close> as the table has rows of that name with a positive
  \<open>Vars/Vita.\<close> cell, and all of them have these actual hours. The row of Bob with 10
  expected hours and 4 and 3 actual hours gives the single record with 7 actual hours
  and 70 percent.
\<close>

theorem combined_project:
  assumes run: "snd (process_allocation_csv e s df m y) = Inr recs"
  shows
   "(\<forall>row x. allocated (row ''Vars/Vita.'') = Inr (Some x) \<longrightarrow>
       cell_records (snd (fetch_all_actual_hours e m y)) row (row ''Name'') ''Vars/Vita.'' =
         Inr [combined_record (snd (fetch_all_actual_hours e m y)) row x]) \<and>
    (''Vars/Vita.'' \<in> set (columns (heap s df)) \<longrightarrow>
       (\<forall>row \<in> set (rows (heap s df)). \<forall>x. allocated (row ''Vars/Vita.'') = Inr (Some x) \<longrightarrow>
          combined_record (snd (fetch_all_actual_hours e m y)) row x \<in> set recs)) \<and>
    (distinct (columns (heap s df)) \<and> ''Vars/Vita.'' \<in> set (columns (heap s df)) \<and>
     ''VARS/Vitawerks'' \<notin> set (columns (heap s df)) \<longrightarrow>
       (\<forall>n. length (filter (\<lambda>rec. Name rec = n \<and> Project rec = ''VARS/Vitawerks'') recs) =
            length (filter (\<lambda>row. row ''Name'' = n \<and> has_allocation (row ''Vars/Vita.''))
                      (rows (heap s df)))) \<and>
       (\<forall>rec \<in> set recs. Project rec = ''VARS/Vitawerks'' \<longrightarrow>
          Actual_Hours rec =
            lookup_get (snd (fetch_all_actual_hours e m y)) (Name rec, StrCell ''VARS'') +
            lookup_get (snd (fetch_all_actual_hours e m y)) (Name rec, StrCell ''Vitawerks''))) \<and>
    ''VARS/Vitawerks'' \<noteq> ''VARS'' \<and> ''VARS/Vitawerks'' \<noteq> ''Vitawerks''"
proof -
  let ?L = "snd (fetch_all_actual_hours e m y)"
  let ?t = "heap s df"
  let ?ncs = "numeric_cols ?t"
  from run have recs: "recs = report ?L ?t" by (rule process_success)
  have name: "converted ?ncs row ''Name'' = row ''Name''" for row
    by (simp add: converted_Name numeric_cols_facts)
  have body: "cell_records ?L row (row ''Name'') ''Vars/Vita.'' = Inr [combined_record ?L row x]"
    if "allocated (row ''Vars/Vita.'') = Inr (Some x)" for row x
    using that by (rule cell_records_Vars)
  have present: "combined_record ?L row x \<in> set recs"
    if col: "''Vars/Vita.'' \<in> set (columns ?t)" and row: "row \<in> set (rows ?t)"
      and x: "allocated (row ''Vars/Vita.'') = Inr (Some x)" for row x
  proof -
    from col have v: "''Vars/Vita.'' \<in> set ?ncs" by (rule Vars_numeric_col)
    from x have "cell_lines ?L (converted ?ncs row) ''Vars/Vita.'' = [combined_record ?L row x]"
      by (simp add: cell_lines_Vars name combined_record_def)
    with row v show ?thesis
      unfolding recs report_iff by force
  qed
  have count: "length (filter (\<lambda>rec. Name rec = n \<and> Project rec = ''VARS/Vitawerks'') recs) =
         length (filter (\<lambda>row. row ''Name'' = n \<and> has_allocation (row ''Vars/Vita.'')) (rows ?t))"
    if dist: "distinct (columns ?t)" and col: "''Vars/Vita.'' \<in> set (columns ?t)"
      and fresh: "''VARS/Vitawerks'' \<notin> set (columns ?t)" for n
  proof -
    from dist have d: "distinct ?ncs" by (rule numeric_cols_facts)
    from col have v: "''Vars/Vita.'' \<in> set ?ncs" by (rule Vars_numeric_col)
    from fresh numeric_cols_facts(1) [of ?t] have f: "''VARS/Vitawerks'' \<notin> set ?ncs" by blast
    show ?thesis
      unfolding recs report_def length_filter_sort_values length_filter_concat_map
      by (simp add: row_lines_combined_count [OF d v f] name o_def
          length_filter_sum_list [where Q = "\<lambda>row. row ''Name'' = n \<and> has_allocation (row ''Vars/Vita.'')"])
  qed
  have actual: "Actual_Hours rec =
      lookup_get ?L (Name rec, StrCell ''VARS'') + lookup_get ?L (Name rec, StrCell ''Vitawerks'')"
    if fresh: "''VARS/Vitawerks'' \<notin> set (columns ?t)"
      and "rec \<in> set recs" "Project rec = ''VARS/Vitawerks''" for rec
  proof -
    from fresh numeric_cols_facts(1) [of ?t] have f: "''VARS/Vitawerks'' \<notin> set ?ncs" by blast
    from that(2) obtain row c where c: "c \<in> set ?ncs"
      and rec: "rec \<in> set (cell_lines ?L (converted ?ncs row) c)"
      by (auto simp: recs report_iff)
    from c f have "c \<noteq> ''VARS/Vitawerks''" by auto
    with cell_lines_not_combined [OF _ this rec] that(3) have "c = ''Vars/Vita.''" by blast
    with rec show ?thesis
      by (auto simp: cell_lines_Vars split: sum.splits option.splits)
  qed
  from body present count actual show ?thesis by simp
qed

theorem combined_project_witness:
  "snd (process_allocation_csv (example_env bob_tickets) (example_store bob_df) 0 ''Mar'' ''2025'') =
     Inr [\<lparr>Name = StrCell ''Bob'', Project = ''VARS/Vitawerks'', Expected_Hours = 10,
           Actual_Hours = 7, Completion = 70\<rparr>] \<and>
   allocated (hd (rows bob_df) ''Vars/Vita.'') = Inr (Some 10) \<and>
   cell_records (snd (fetch_all_actual_hours (example_env bob_tickets) ''Mar'' ''2025''))
       (hd (rows bob_df)) (hd (rows bob_df) ''Name'') ''Vars/Vita.'' =
     Inr [\<lparr>Name = StrCell ''Bob'', Project = ''VARS/Vitawerks'', Expected_Hours = 10,
           Actual_Hours = 7, Completion = 70\<rparr>] \<and>
   distinct (columns (heap (example_store bob_df) 0)) \<and>
   ''Vars/Vita.'' \<in> set (columns (heap (example_store bob_df) 0)) \<and>
   ''VARS/Vitawerks'' \<notin> set (columns (heap (example_store bob_df) 0)) \<and>
   length (filter (\<lambda>rec. Name rec = StrCell ''Bob'' \<and> Project rec = ''VARS/Vitawerks'')
      [\<lparr>Name = StrCell ''Bob'', Project = ''VARS/Vitawerks'', Expected_Hours = 10,
           Actual_Hours = 7, Completion = 70\<rparr>]) =
   length (filter (\<lambda>row. row ''Name'' = StrCell ''Bob'' \<and> has_allocation (row ''Vars/Vita.''))
      (rows (heap (example_store bob_df) 0))) \<and>
   combined_record (snd (fetch_all_actual_hours (example_env bob_tickets) ''Mar'' ''2025''))
       (hd (rows bob_df)) 10 \<in>
     set [\<lparr>Name = StrCell ''Bob'', Project = ''VARS/Vitawerks'', Expected_Hours = 10,
           Actual_Hours = 7, Completion = 70\<rparr>] \<and>
   lookup_get (snd (fetch_all_actual_hours (example_env bob_tickets) ''Mar'' ''2025''))
      (StrCell ''Bob'', StrCell ''VARS'') +
   lookup_get (snd (fetch_all_actual_hours (example_env bob_tickets) ''Mar'' ''2025''))
      (StrCell ''Bob'', StrCell ''Vitawerks'') = 7"
proof -
  let ?rec = "\<lparr>Name = StrCell ''Bob'', Project = ''VARS/Vitawerks'', Expected_Hours = 10,
           Actual_Hours = 7, Completion = 70\<rparr>"
  let ?L = "snd (fetch_all_actual_hours (example_env bob_tickets) ''Mar'' ''2025'')"
  let ?row = "hd (rows bob_df)"
  have dist: "distinct (columns (heap (example_store bob_df) 0))"
    and col: "''Vars/Vita.'' \<in> set (columns (heap (example_store bob_df) 0))"
    and fresh: "''VARS/Vitawerks'' \<notin> set (columns (heap (example_store bob_df) 0))"
    by (simp_all add: example_store_def bob_df_def)
  note inst = combined_project [OF bob_run]
  have cell: "allocated (?row ''Vars/Vita.'') = Inr (Some 10)"
    by (simp add: bob_df_def table_row_def)
  have row: "?row \<in> set (rows (heap (example_store bob_df) 0))"
    by (simp add: example_store_def bob_df_def)
  have L: "?L = [(StrCell ''Bob'', StrCell ''VARS'') \<mapsto> 4, (StrCell ''Bob'', StrCell ''Vitawerks'') \<mapsto> 3]"
    by (simp add: example_eval bob_tickets_def fun_eq_iff)
  have the_rec: "combined_record ?L ?row 10 = ?rec"
    by (simp add: L combined_record_def lookup_get_def bob_df_def table_row_def
        completion_percentage_def py_round_def round_half_even_def)
  from inst cell have body: "cell_records ?L ?row (?row ''Name'') ''Vars/Vita.'' = Inr [?rec]"
    unfolding the_rec [symmetric] by blast
  from inst col row cell have present: "combined_record ?L ?row 10 \<in> set [?rec]"
    by blast
  from inst dist col fresh
  have count: "length (filter (\<lambda>rec. Name rec = StrCell ''Bob'' \<and> Project rec = ''VARS/Vitawerks'') [?rec]) =
    length (filter (\<lambda>row. row ''Name'' = StrCell ''Bob'' \<and> has_allocation (row ''Vars/Vita.''))
      (rows (heap (example_store bob_df) 0)))"
    by blast
  have "?rec \<in> set [?rec]" "Project ?rec = ''VARS/Vitawerks''" by simp_all
  with inst dist col fresh have "Actual_Hours ?rec =
    lookup_get ?L (Name ?rec, StrCell ''VARS'') + lookup_get ?L (Name ?rec, StrCell ''Vitawerks'')"
    by blast
  then have sum: "lookup_get ?L (StrCell ''Bob'', StrCell ''VARS'') +
      lookup_get ?L (StrCell ''Bob'', StrCell ''Vitawerks'') = 7"
    by simp
  from bob_run cell body dist col fresh count present sum show ?thesis by blast
qed

section \<open>Skipped cells\<close>

lemma length_cell_lines:
  "length (cell_lines L row c) = (if has_allocation (row c) then 1 else 0)"
proof (cases "has_allocation (row c)")
  case True
  then obtain x where x: "allocated (row c) = Inr (Some x)"
    by (auto simp: has_allocation_iff)
  obtain p a where "standardize_project L (row ''Name'') c = Inr (p, a)"
    using standardize_project_Inr by blast
  with x True show ?thesis by (simp add: cell_lines_allocated)
next
  case False
  then have "\<forall>x. allocated (row c) \<noteq> Inr (Some x)"
    by (simp add: has_allocation_iff)
  with False show ?thesis by (simp add: cell_lines_skipped)
qed

lemma length_row_lines:
  "length (row_lines L pcs row) = length (filter (\<lambda>c. has_allocation (row c)) pcs)"
  by (induction pcs) (simp_all add: row_lines_def length_cell_lines)

lemma length_report:
  "length (report L df) =
     sum_list (map (\<lambda>row. length (filter (\<lambda>c. has_allocation (row c)) (numeric_cols df))) (rows df))"
  by (simp add: report_def sort_values_def length_concat o_def length_row_lines)

lemma cell_records_skipped:
  "row c = NACell \<or> (\<exists>x. row c = FloatCell x \<and> x \<le> 0) \<or> (\<exists>k. row c = IntCell k \<and> k \<le> 0) \<Longrightarrow>
   cell_records L row n c = Inr []"
  by (auto simp: cell_records_def)

lemma carol_numeric: "numeric_table (heap (example_store carol_df) 0)"
  by (simp add: numeric_table_def numeric_cols_def dropped_def IGNORED_COLUMNS_def
      example_store_def carol_df_def table_row_def)

lemma text_not_numeric: "\<not> numeric_table (heap (example_store text_df) 0)"
  by (simp add: numeric_table_def numeric_cols_def dropped_def IGNORED_COLUMNS_def
      example_store_def text_df_def table_row_def)

lemma example_users: "fetch_valid_users (example_env tickets) = Inr {StrCell ''Alice''}"
  by (simp add: fetch_valid_users_def example_env_def users_df_def df_empty_def table_row_def)

text \<open>
  Claim C4, as the code has it. In a table whose cells under the columns that are neither
  \<open>Name\<close> nor ignored are numbers or missing, with a \<open>Name\<close> column and a user directory
  that answers, \<open>process_allocation_csv\<close> raises nothing and returns one record for each
  cell with positive expected hours and none for the others: a cell that is missing, or
  not positive, appends no record and raises nothing. A text cell under one of these
  columns makes the call raise \<open>ValueError\<close>.
\<close>

theorem skipped_cells:
  "(numeric_table (heap s df) \<and> (\<exists>us. fetch_valid_users e = Inr us) \<and>
      ''Name'' \<in> set (columns (heap s df)) \<longrightarrow>
      (\<exists>recs. snd (process_allocation_csv e s df m y) = Inr recs \<and>
         length recs =
           sum_list (map (\<lambda>row. length (filter (\<lambda>c. has_allocation (row c))
                                          (numeric_cols (heap s df))))
                         (rows (heap s df))))) \<and>
   (row c = NACell \<or> (\<exists>x. row c = FloatCell x \<and> x \<le> 0) \<or> (\<exists>k. row c = IntCell k \<and> k \<le> 0) \<longrightarrow>
      \<not> has_allocation (row c) \<and> cell_records L row n c = Inr []) \<and>
   (\<not> numeric_table (heap s df) \<longrightarrow> snd (process_allocation_csv e s df m y) = Inl ValueError)"
proof (intro conjI impI)
  assume "numeric_table (heap s df) \<and> (\<exists>us. fetch_valid_users e = Inr us) \<and>
      ''Name'' \<in> set (columns (heap s df))"
  then have "snd (process_allocation_csv e s df m y) =
      Inr (report (snd (fetch_all_actual_hours e m y)) (heap s df))"
    by (auto simp: process_result)
  then show "\<exists>recs. snd (process_allocation_csv e s df m y) = Inr recs \<and>
         length recs =
           sum_list (map (\<lambda>row. length (filter (\<lambda>c. has_allocation (row c))
                                          (numeric_cols (heap s df))))
                         (rows (heap s df)))"
    by (simp add: length_report)
next
  assume skip: "row c = NACell \<or> (\<exists>x. row c = FloatCell x \<and> x \<le> 0) \<or> (\<exists>k. row c = IntCell k \<and> k \<le> 0)"
  then show "\<not> has_allocation (row c)"
    by (auto simp: has_allocation_def)
  from skip show "cell_records L row n c = Inr []"
    by (rule cell_records_skipped)
next
  assume "\<not> numeric_table (heap s df)"
  then show "snd (process_allocation_csv e s df m y) = Inl ValueError"
    by (simp add: process_result)
qed

theorem skipped_cells_witness:
  "numeric_table (heap (example_store carol_df) 0) \<and>
   fetch_valid_users (example_env alice_tickets) = Inr {StrCell ''Alice''} \<and>
   ''Name'' \<in> set (columns (heap (example_store carol_df) 0)) \<and>
   snd (process_allocation_csv (example_env alice_tickets) (example_store carol_df) 0 ''Mar'' ''2025'') =
     Inr [\<lparr>Name = StrCell ''Carol'', Project = ''Phoenix'', Expected_Hours = 8,
           Actual_Hours = 0, Completion = 0\<rparr>] \<and>
   sum_list (map (\<lambda>row. length (filter (\<lambda>c. has_allocation (row c))
                                  (numeric_cols (heap (example_store carol_df) 0))))
                 (rows (heap (example_store carol_df) 0))) = 1 \<and>
   cell_records Map.empty (hd (rows carol_df)) (StrCell ''Carol'') ''Kinergy'' = Inr [] \<and>
   cell_records Map.empty (hd (rows carol_df)) (StrCell ''Carol'') ''SDI'' = Inr [] \<and>
   cell_records Map.empty (hd (rows carol_df)) (StrCell ''Carol'') ''Alma'' = Inr [] \<and>
   \<not> numeric_table (heap (example_store text_df) 0) \<and>
   snd (process_allocation_csv (example_env alice_tickets) (example_store text_df) 0 ''Mar'' ''2025'') =
     Inl ValueError"
proof -
  let ?e = "example_env alice_tickets"
  let ?row = "hd (rows carol_df)"
  have name: "''Name'' \<in> set (columns (heap (example_store carol_df) 0))"
    by (simp add: example_store_def carol_df_def)
  from skipped_cells [where s = "example_store carol_df" and df = 0 and e = ?e
      and m = "''Mar''" and y = "''2025''"]
    carol_numeric example_users [of alice_tickets] name
  obtain recs where recs: "snd (process_allocation_csv ?e (example_store carol_df) 0 ''Mar'' ''2025'') = Inr recs"
    and len: "length recs = sum_list (map (\<lambda>row. length (filter (\<lambda>c. has_allocation (row c))
                                  (numeric_cols (heap (example_store carol_df) 0))))
                 (rows (heap (example_store carol_df) 0)))"
    by blast
  from recs carol_run have "length recs = 1" by auto
  with len have one: "sum_list (map (\<lambda>row. length (filter (\<lambda>c. has_allocation (row c))
                                  (numeric_cols (heap (example_store carol_df) 0))))
                 (rows (heap (example_store carol_df) 0))) = 1"
    by simp
  have cells: "?row ''Kinergy'' = NACell" "?row ''SDI'' = FloatCell 0" "?row ''Alma'' = IntCell (- 3)"
    by (simp_all add: carol_df_def table_row_def)
  from cells(1) skipped_cells [where row = ?row and c = "''Kinergy''" and L = Map.empty
      and n = "StrCell ''Carol''"]
  have k: "cell_records Map.empty ?row (StrCell ''Carol'') ''Kinergy'' = Inr []"
    by blast
  from cells(2) skipped_cells [where row = ?row and c = "''SDI''" and L = Map.empty
      and n = "StrCell ''Carol''"]
  have sdi: "cell_records Map.empty ?row (StrCell ''Carol'') ''SDI'' = Inr []"
    by simp
  from cells(3) skipped_cells [where row = ?row and c = "''Alma''" and L = Map.empty
      and n = "StrCell ''Carol''"]
  have alma: "cell_records Map.empty ?row (StrCell ''Carol'') ''Alma'' = Inr []"
    by simp
  from text_not_numeric skipped_cells [where s = "example_store text_df" and df = 0 and e = ?e
      and m = "''Mar''" and y = "''2025''"]
  have raises: "snd (process_allocation_csv ?e (example_store text_df) 0 ''Mar'' ''2025'') = Inl ValueError"
    by blast
  from carol_numeric example_users [of alice_tickets] name carol_run one k sdi alma
    text_not_numeric raises
  show ?thesis by blast
qed

text \<open>
  A text cell is not skipped: the table of Dan, whose \<open>SDI\<close> cell is the text \<open>abc\<close>, makes
  \<open>process_allocation_csv\<close> raise \<open>ValueError\<close>.
\<close>

theorem text_cell_raises:
  "snd (process_allocation_csv (example_env alice_tickets) (example_store text_df) 0 ''Mar'' ''2025'') =
     Inl ValueError"
  by (simp add: example_eval text_df_def alice_tickets_def)

section \<open>Failures of the ticket provider\<close>

lemma getitem_month_abbr:
  "getitem month_abbr (get_month_number m) = Inr (month_abbr ! get_month_number m)"
  using get_month_number_le [of m] by (simp add: getitem_def month_abbr_def)

lemma fetch_unfold:
  "fetch_all_actual_hours e m y =
     (case jira_tickets e (period m y) of
        Inl ex \<Rightarrow> ([ex], Map.empty)
      | Inr report_df \<Rightarrow>
          if \<not> df_empty report_df \<and> ''time_spent'' \<in> set (columns report_df) then
            (case column_astype_float ''time_spent'' report_df of
               Inl ex \<Rightarrow> ([ex], Map.empty)
             | Inr seconds \<Rightarrow>
                 if ''teric_name'' \<in> set (columns report_df) \<and>
                    ''teric_project_name'' \<in> set (columns report_df)
                 then ([], grouped_lookup (setitem ''actual_hours'' (map hours_cell seconds) report_df))
                 else ([KeyError], Map.empty))
          else ([], Map.empty))"
  by (auto simp: fetch_all_actual_hours_def getitem_month_abbr period_def Let_def setitem_def
      split: sum.splits)

lemma round_half_even_0 [simp]: "round_half_even 0 = 0"
  by (simp add: round_half_even_def)

lemma completion_percentage_0 [simp]: "completion_percentage x 0 = 0"
  by (simp add: completion_percentage_def py_round_def)

lemma standardize_project_empty:
  "standardize_project Map.empty n c = Inr (p, a) \<Longrightarrow> a = 0"
  by (auto simp: standardize_project_def lookup_get_def PROJECT_NAME_MAPPING_def
      split: option.splits pname.splits if_splits)

lemma report_empty_lookup:
  assumes "rec \<in> set (report Map.empty df)"
  shows "Actual_Hours rec = 0 \<and> Completion rec = 0"
proof -
  from assms obtain row c where "rec \<in> set (cell_lines Map.empty row c)"
    by (auto simp: report_iff)
  then obtain x p a where "standardize_project Map.empty (row ''Name'') c = Inr (p, a)"
    and "rec = \<lparr>Name = row ''Name'', Project = p, Expected_Hours = x, Actual_Hours = a,
                 Completion = completion_percentage x a\<rparr>"
    by (rule cell_lines_cases)
  then show ?thesis by (auto dest: standardize_project_empty)
qed

lemma alice_quiet_run:
  "snd (process_allocation_csv (example_env no_tickets) (example_store alice_df) 0 ''Mar'' ''2025'') =
     Inr [\<lparr>Name = StrCell ''Alice'', Project = ''SDI'', Expected_Hours = 10,
           Actual_Hours = 0, Completion = 0\<rparr>]"
  by (simp add: example_eval alice_df_def no_tickets_def)

lemma alice_numeric: "numeric_table (heap (example_store alice_df) 0)"
  by (simp add: numeric_table_def numeric_cols_def dropped_def IGNORED_COLUMNS_def
      example_store_def alice_df_def table_row_def)

text \<open>
  Claim C6, as the code has it. Whatever goes wrong with the ticket provider,
  \<open>fetch_all_actual_hours\<close> returns the empty lookup. It shows a warning when an exception
  was raised: by the provider itself, by a \<open>time_spent\<close> value that is not a number, or by
  a missing \<open>teric_name\<close> or \<open>teric_project_name\<close> column. It shows no warning when the
  provider returns an empty table or one without a \<open>time_spent\<close> column. With the empty
  lookup \<open>process_allocation_csv\<close> goes on as with any other: it returns one record for
  each cell with positive expected hours, all with 0 actual hours and 0 percent.
\<close>

theorem ticket_provider_failure:
  "(\<forall>ex. jira_tickets e (period m y) = Inl ex \<longrightarrow>
      fetch_all_actual_hours e m y = ([ex], Map.empty)) \<and>
   (\<forall>t. jira_tickets e (period m y) = Inr t \<and> (df_empty t \<or> ''time_spent'' \<notin> set (columns t)) \<longrightarrow>
      fetch_all_actual_hours e m y = ([], Map.empty)) \<and>
   (\<forall>t. jira_tickets e (period m y) = Inr t \<and> \<not> df_empty t \<and> ''time_spent'' \<in> set (columns t) \<and>
        (\<exists>row \<in> set (rows t). is_text (row ''time_spent'')) \<longrightarrow>
      fetch_all_actual_hours e m y = ([ValueError], Map.empty)) \<and>
   (\<forall>t. jira_tickets e (period m y) = Inr t \<and> \<not> df_empty t \<and> ''time_spent'' \<in> set (columns t) \<and>
        (\<forall>row \<in> set (rows t). \<not> is_text (row ''time_spent'')) \<and>
        (''teric_name'' \<notin> set (columns t) \<or> ''teric_project_name'' \<notin> set (columns t)) \<longrightarrow>
      fetch_all_actual_hours e m y = ([KeyError], Map.empty)) \<and>
   (snd (fetch_all_actual_hours e m y) = Map.empty \<longrightarrow>
      (\<forall>recs. snd (process_allocation_csv e s df m y) = Inr recs \<longrightarrow>
         (\<forall>rec \<in> set recs. Actual_Hours rec = 0 \<and> Completion rec = 0)) \<and>
      (numeric_table (heap s df) \<and> (\<exists>us. fetch_valid_users e = Inr us) \<and>
         ''Name'' \<in> set (columns (heap s df)) \<longrightarrow>
         (\<exists>recs. snd (process_allocation_csv e s df m y) = Inr recs \<and>
            length recs =
              sum_list (map (\<lambda>row. length (filter (\<lambda>c. has_allocation (row c))
                                             (numeric_cols (heap s df))))
                            (rows (heap s df))))))"
proof (intro conjI allI impI)
  fix ex assume "jira_tickets e (period m y) = Inl ex"
  then show "fetch_all_actual_hours e m y = ([ex], Map.empty)"
    by (simp add: fetch_unfold)
next
  fix t assume "jira_tickets e (period m y) = Inr t \<and> (df_empty t \<or> ''time_spent'' \<notin> set (columns t))"
  then show "fetch_all_actual_hours e m y = ([], Map.empty)"
    by (auto simp: fetch_unfold)
next
  fix t assume "jira_tickets e (period m y) = Inr t \<and> \<not> df_empty t \<and> ''time_spent'' \<in> set (columns t) \<and>
        (\<exists>row \<in> set (rows t). is_text (row ''time_spent''))"
  then show "fetch_all_actual_hours e m y = ([ValueError], Map.empty)"
    by (simp add: fetch_unfold column_astype_float_def)
next
  fix t assume "jira_tickets e (period m y) = Inr t \<and> \<not> df_empty t \<and> ''time_spent'' \<in> set (columns t) \<and>
        (\<forall>row \<in> set (rows t). \<not> is_text (row ''time_spent'')) \<and>
        (''teric_name'' \<notin> set (columns t) \<or> ''teric_project_name'' \<notin> set (columns t))"
  then show "fetch_all_actual_hours e m y = ([KeyError], Map.empty)"
    by (auto simp: fetch_unfold column_astype_float_def)
next
  fix recs
  assume "snd (fetch_all_actual_hours e m y) = Map.empty"
    and "snd (process_allocation_csv e s df m y) = Inr recs"
  with process_success(1) [of e s df m y recs] have "recs = report Map.empty (heap s df)"
    by simp
  then show "\<forall>rec \<in> set recs. Actual_Hours rec = 0 \<and> Completion rec = 0"
    using report_empty_lookup by blast
next
  assume "numeric_table (heap s df) \<and> (\<exists>us. fetch_valid_users e = Inr us) \<and>
      ''Name'' \<in> set (columns (heap s df))"
  then have "snd (process_allocation_csv e s df m y) =
      Inr (report (snd (fetch_all_actual_hours e m y)) (heap s df))"
    by (auto simp: process_result)
  then show "\<exists>recs. snd (process_allocation_csv e s df m y) = Inr recs \<and>
         length recs =
           sum_list (map (\<lambda>row. length (filter (\<lambda>c. has_allocation (row c))
                                          (numeric_cols (heap s df))))
                         (rows (heap s df)))"
    by (simp add: length_report)
qed

theorem ticket_provider_failure_witness:
  "jira_tickets failing_env (period ''Mar'' ''2025'') = Inl (ProviderError ''timeout'') \<and>
   fetch_all_actual_hours failing_env ''Mar'' ''2025'' = ([ProviderError ''timeout''], Map.empty) \<and>
   jira_tickets (example_env no_tickets) (period ''Mar'' ''2025'') = Inr no_tickets \<and>
   df_empty no_tickets \<and>
   fetch_all_actual_hours (example_env no_tickets) ''Mar'' ''2025'' = ([], Map.empty) \<and>
   jira_tickets (example_env text_tickets) (period ''Mar'' ''2025'') = Inr text_tickets \<and>
   fetch_all_actual_hours (example_env text_tickets) ''Mar'' ''2025'' = ([ValueError], Map.empty) \<and>
   jira_tickets (example_env nameless_tickets) (period ''Mar'' ''2025'') = Inr nameless_tickets \<and>
   ''teric_name'' \<notin> set (columns nameless_tickets) \<and>
   fetch_all_actual_hours (example_env nameless_tickets) ''Mar'' ''2025'' = ([KeyError], Map.empty) \<and>
   snd (process_allocation_csv (example_env no_tickets) (example_store alice_df) 0 ''Mar'' ''2025'') =
     Inr [\<lparr>Name = StrCell ''Alice'', Project = ''SDI'', Expected_Hours = 10,
           Actual_Hours = 0, Completion = 0\<rparr>] \<and>
   Actual_Hours \<lparr>Name = StrCell ''Alice'', Project = ''SDI'', Expected_Hours = 10,
           Actual_Hours = 0, Completion = 0\<rparr> = 0"
proof -
  let ?rec = "\<lparr>Name = StrCell ''Alice'', Project = ''SDI'', Expected_Hours = 10,
           Actual_Hours = 0, Completion = 0\<rparr>"
  have raised: "jira_tickets failing_env (period ''Mar'' ''2025'') = Inl (ProviderError ''timeout'')"
    by (simp add: failing_env_def)
  with ticket_provider_failure [where e = failing_env and m = "''Mar''" and y = "''2025''"]
  have f1: "fetch_all_actual_hours failing_env ''Mar'' ''2025'' = ([ProviderError ''timeout''], Map.empty)"
    by blast
  have none: "jira_tickets (example_env no_tickets) (period ''Mar'' ''2025'') = Inr no_tickets"
    "df_empty no_tickets"
    by (simp_all add: example_env_def no_tickets_def df_empty_def)
  with ticket_provider_failure [where e = "example_env no_tickets" and m = "''Mar''" and y = "''2025''"]
  have f2: "fetch_all_actual_hours (example_env no_tickets) ''Mar'' ''2025'' = ([], Map.empty)"
    by blast
  have textual: "jira_tickets (example_env text_tickets) (period ''Mar'' ''2025'') = Inr text_tickets"
    "\<not> df_empty text_tickets" "''time_spent'' \<in> set (columns text_tickets)"
    "\<exists>row \<in> set (rows text_tickets). is_text (row ''time_spent'')"
    by (simp_all add: example_env_def text_tickets_def df_empty_def table_row_def)
  with ticket_provider_failure [where e = "example_env text_tickets" and m = "''Mar''" and y = "''2025''"]
  have f3: "fetch_all_actual_hours (example_env text_tickets) ''Mar'' ''2025'' = ([ValueError], Map.empty)"
    by blast
  have nameless: "jira_tickets (example_env nameless_tickets) (period ''Mar'' ''2025'') = Inr nameless_tickets"
    "\<not> df_empty nameless_tickets" "''time_spent'' \<in> set (columns nameless_tickets)"
    "\<forall>row \<in> set (rows nameless_tickets). \<not> is_text (row ''time_spent'')"
    "''teric_name'' \<notin> set (columns nameless_tickets)"
    by (simp_all add: example_env_def nameless_tickets_def df_empty_def table_row_def)
  with ticket_provider_failure [where e = "example_env nameless_tickets" and m = "''Mar''" and y = "''2025''"]
  have f4: "fetch_all_actual_hours (example_env nameless_tickets) ''Mar'' ''2025'' = ([KeyError], Map.empty)"
    by blast
  from f2 have empty: "snd (fetch_all_actual_hours (example_env no_tickets) ''Mar'' ''2025'') = Map.empty"
    by simp
  have name: "''Name'' \<in> set (columns (heap (example_store alice_df) 0))"
    by (simp add: example_store_def alice_df_def)
  from empty alice_numeric example_users [of no_tickets] name
    ticket_provider_failure [where e = "example_env no_tickets" and m = "''Mar''" and y = "''2025''"
      and s = "example_store alice_df" and df = 0]
  obtain recs where recs: "snd (process_allocation_csv (example_env no_tickets) (example_store alice_df) 0
      ''Mar'' ''2025'') = Inr recs"
    by blast
  with alice_quiet_run have "?rec \<in> set recs" by auto
  with empty recs
    ticket_provider_failure [where e = "example_env no_tickets" and m = "''Mar''" and y = "''2025''"
      and s = "example_store alice_df" and df = 0]
  have zero: "Actual_Hours ?rec = 0" by blast
  from raised f1 none f2 textual(1) f3 nameless(1,5) f4 alice_quiet_run zero
  show ?thesis by blast
qed

text \<open>
  An empty answer of the ticket provider shows no warning, neither in
  \<open>fetch_all_actual_hours\<close> nor in the whole run.
\<close>

theorem empty_result_no_warning:
  "fetch_all_actual_hours (example_env no_tickets) ''Mar'' ''2025'' = ([], Map.empty) \<and>
   warnings (fst (process_allocation_csv (example_env no_tickets) (example_store alice_df) 0
                    ''Mar'' ''2025'')) = []"
  by (simp add: example_eval no_tickets_def alice_df_def)

section \<open>The caller's table\<close>

lemma converted_floats:
  "\<forall>c \<in> set cols. (\<exists>x. row c = FloatCell x) \<or> row c = NACell \<Longrightarrow> converted cols row = row"
  by (auto simp: converted_def fun_eq_iff)

lemma as_float_floats:
  assumes "\<forall>row \<in> set (rows df). \<forall>c \<in> set cols. (\<exists>x. row c = FloatCell x) \<or> row c = NACell"
  shows "as_float cols df = df"
proof -
  from assms have "map (converted cols) (rows df) = rows df"
    by (intro map_idI converted_floats) blast
  then show ?thesis by (simp add: as_float_def)
qed

lemma floats_numeric_table:
  assumes "\<forall>row \<in> set (rows df). \<forall>c \<in> set (numeric_cols df). (\<exists>x. row c = FloatCell x) \<or> row c = NACell"
  shows "numeric_table df"
  unfolding numeric_table_def
proof (intro ballI)
  fix row c assume "row \<in> set (rows df)" "c \<in> set (numeric_cols df)"
  with assms have "(\<exists>x. row c = FloatCell x) \<or> row c = NACell" by blast
  then show "\<not> is_text (row c)" by auto
qed

text \<open>
  Claim C9, as the code has it. \<open>process_allocation_csv\<close> changes no table of the caller
  other than the one it is given. The table it is given stays as it was when it has an
  ignored column, since the function then works on the copy that \<open>drop\<close> makes. When the
  table has no ignored column the function converts it in place: after a run on a table
  without text cells, every cell under a column other than \<open>Name\<close> is a float, an
  integer having become the float of the same value. A table whose cells under these
  columns are floats or missing already is therefore unchanged.
\<close>

theorem caller_table:
  assumes "df < next_ref s"
  shows
   "(\<forall>q < next_ref s. q \<noteq> df \<longrightarrow> heap (fst (process_allocation_csv e s df m y)) q = heap s q) \<and>
    ((\<exists>c \<in> set IGNORED_COLUMNS. c \<in> set (columns (heap s df))) \<longrightarrow>
       heap (fst (process_allocation_csv e s df m y)) df = heap s df) \<and>
    ((\<forall>c \<in> set IGNORED_COLUMNS. c \<notin> set (columns (heap s df))) \<and> numeric_table (heap s df) \<longrightarrow>
       heap (fst (process_allocation_csv e s df m y)) df =
       as_float (numeric_cols (heap s df)) (heap s df)) \<and>
    ((\<forall>row \<in> set (rows (heap s df)). \<forall>c \<in> set (numeric_cols (heap s df)).
          (\<exists>x. row c = FloatCell x) \<or> row c = NACell) \<longrightarrow>
       heap (fst (process_allocation_csv e s df m y)) df = heap s df)"
proof -
  let ?s' = "fst (process_allocation_csv e s df m y)"
  note st = process_store [OF assms, of e m y]
  have "heap ?s' df = heap s df"
    if floats: "\<forall>row \<in> set (rows (heap s df)). \<forall>c \<in> set (numeric_cols (heap s df)).
          (\<exists>x. row c = FloatCell x) \<or> row c = NACell"
  proof (cases "\<exists>c \<in> set IGNORED_COLUMNS. c \<in> set (columns (heap s df))")
    case True
    with st show ?thesis by blast
  next
    case False
    moreover from floats have "numeric_table (heap s df)" by (rule floats_numeric_table)
    ultimately have "heap ?s' df = as_float (numeric_cols (heap s df)) (heap s df)"
      using st by blast
    with floats show ?thesis by (simp add: as_float_floats)
  qed
  with st show ?thesis by blast
qed

theorem caller_table_witness:
  "(1::nat) < next_ref two_tables \<and> (0::nat) < next_ref two_tables \<and>
   heap (fst (process_allocation_csv (example_env alice_tickets) two_tables 1 ''Mar'' ''2025'')) 0 =
     heap two_tables 0 \<and>
   ''Dept'' \<in> set IGNORED_COLUMNS \<and> ''Dept'' \<in> set (columns (heap two_tables 0)) \<and>
   heap (fst (process_allocation_csv (example_env alice_tickets) two_tables 0 ''Mar'' ''2025'')) 0 =
     heap two_tables 0 \<and>
   numeric_table (heap two_tables 1) \<and>
   heap (fst (process_allocation_csv (example_env alice_tickets) two_tables 1 ''Mar'' ''2025'')) 1 =
     as_float (numeric_cols (heap two_tables 1)) (heap two_tables 1) \<and>
   (0::nat) < next_ref (example_store fay_df) \<and>
   heap (fst (process_allocation_csv (example_env alice_tickets) (example_store fay_df) 0
                ''Mar'' ''2025'')) 0 = heap (example_store fay_df) 0"
proof -
  let ?e = "example_env alice_tickets"
  have r1: "(1::nat) < next_ref two_tables" and r0: "(0::nat) < next_ref two_tables"
    by (simp_all add: two_tables_def)
  note at1 = caller_table [OF r1, of ?e "''Mar''" "''2025''"]
  note at0 = caller_table [OF r0, of ?e "''Mar''" "''2025''"]
  from at1 r0 have other: "heap (fst (process_allocation_csv ?e two_tables 1 ''Mar'' ''2025'')) 0 =
     heap two_tables 0"
    by simp
  have dept: "''Dept'' \<in> set IGNORED_COLUMNS" "''Dept'' \<in> set (columns (heap two_tables 0))"
    by (simp_all add: IGNORED_COLUMNS_def two_tables_def erin_df_def)
  with at0 have kept: "heap (fst (process_allocation_csv ?e two_tables 0 ''Mar'' ''2025'')) 0 =
     heap two_tables 0"
    by blast
  have none: "\<forall>c \<in> set IGNORED_COLUMNS. c \<notin> set (columns (heap two_tables 1))"
    by (simp add: IGNORED_COLUMNS_def two_tables_def alice_df_def)
  have num: "numeric_table (heap two_tables 1)"
    by (simp add: numeric_table_def numeric_cols_def dropped_def IGNORED_COLUMNS_def
        two_tables_def alice_df_def table_row_def)
  from none num at1 have conv: "heap (fst (process_allocation_csv ?e two_tables 1 ''Mar'' ''2025'')) 1 =
     as_float (numeric_cols (heap two_tables 1)) (heap two_tables 1)"
    by blast
  have f0: "(0::nat) < next_ref (example_store fay_df)"
    by (simp add: example_store_def)
  have floats: "\<forall>row \<in> set (rows (heap (example_store fay_df) 0)).
      \<forall>c \<in> set (numeric_cols (heap (example_store fay_df) 0)). (\<exists>x. row c = FloatCell x) \<or> row c = NACell"
    by (simp add: numeric_cols_def dropped_def IGNORED_COLUMNS_def example_store_def fay_df_def
        table_row_def)
  with caller_table [OF f0, of ?e "''Mar''" "''2025''"]
  have same: "heap (fst (process_allocation_csv ?e (example_store fay_df) 0 ''Mar'' ''2025'')) 0 =
     heap (example_store fay_df) 0"
    by blast
  from r1 r0 other dept kept num conv f0 same show ?thesis by blast
qed

text \<open>
  The caller's table is changed by the call: Alice's table has no ignored column, and its
  integer cell 10 under \<open>SDI\<close> is the float 10 afterwards.
\<close>

theorem caller_table_mutated:
  "heap (example_store alice_df) 0 = alice_df \<and>
   heap (fst (process_allocation_csv (example_env alice_tickets) (example_store alice_df) 0
                ''Mar'' ''2025'')) 0 \<noteq> alice_df \<and>
   hd (rows alice_df) ''SDI'' = IntCell 10 \<and>
   hd (rows (heap (fst (process_allocation_csv (example_env alice_tickets) (example_store alice_df) 0
                ''Mar'' ''2025'')) 0)) ''SDI'' = FloatCell 10"
proof -
  have after: "hd (rows (heap (fst (process_allocation_csv (example_env alice_tickets)
      (example_store alice_df) 0 ''Mar'' ''2025'')) 0)) ''SDI'' = FloatCell 10"
    by (simp add: example_eval alice_df_def alice_tickets_def)
  have before: "hd (rows alice_df) ''SDI'' = IntCell 10"
    by (simp add: alice_df_def table_row_def)
  from after before have "heap (fst (process_allocation_csv (example_env alice_tickets)
      (example_store alice_df) 0 ''Mar'' ''2025'')) 0 \<noteq> alice_df"
    by auto
  moreover have "heap (example_store alice_df) 0 = alice_df"
    by (simp add: example_store_def)
  ultimately show ?thesis using after before by simp
qed

section \<open>Order and repetition\<close>

lemma sorted_sort_values: "sorted (map sort_key_of (sort_values xs))"
  by (simp add: sort_values_def)

lemma report_Name:
  assumes "rec \<in> set (report L df)"
  shows "\<exists>row \<in> set (rows df). Name rec = row ''Name''"
proof -
  from assms obtain row c where row: "row \<in> set (rows df)"
    and "rec \<in> set (cell_lines L (converted (numeric_cols df) row) c)"
    by (auto simp: report_iff)
  then have "Name rec = converted (numeric_cols df) row ''Name''"
    by (auto elim: cell_lines_cases)
  with row show ?thesis
    by (auto simp: converted_Name numeric_cols_facts)
qed

lemma name_text_StrCell: "is_text c \<Longrightarrow> StrCell (name_text c) = c"
  by (cases c) simp_all

lemma numeric_cols_as_float [simp]: "numeric_cols (as_float cols df) = numeric_cols df"
  by (simp add: numeric_cols_def dropped_def)

lemma converted_idem [simp]: "converted cols (converted cols row) = converted cols row"
  by (auto simp: converted_def fun_eq_iff)

lemma report_as_float:
  "report L (as_float (numeric_cols df) df) = report L df"
  by (simp add: report_def rows_as_float o_def)

lemma numeric_table_as_float:
  "numeric_table (as_float (numeric_cols df) df) = numeric_table df"
  by (auto simp: numeric_table_def rows_as_float converted_def)

lemma process_again:
  assumes ref: "df < next_ref s"
    and run: "snd (process_allocation_csv e s df m y) = Inr recs"
  shows "snd (process_allocation_csv e (fst (process_allocation_csv e s df m y)) df m y) = Inr recs"
proof -
  let ?t = "heap s df"
  let ?s' = "fst (process_allocation_csv e s df m y)"
  note ok = process_success [OF run]
  have t': "heap ?s' df = ?t \<or> heap ?s' df = as_float (numeric_cols ?t) ?t"
    using process_store [OF ref, of e m y] ok(2) by blast
  then have "numeric_table (heap ?s' df)"
    and "columns (heap ?s' df) = columns ?t"
    and "rows (heap ?s' df) = [] \<longleftrightarrow> rows ?t = []"
    and "report (snd (fetch_all_actual_hours e m y)) (heap ?s' df) =
         report (snd (fetch_all_actual_hours e m y)) ?t"
    using ok(2) by (auto simp: numeric_table_as_float report_as_float rows_as_float)
  with ok show ?thesis
    by (auto simp: process_result [of e ?s'])
qed

lemma team_run:
  "snd (process_allocation_csv (example_env alice_tickets) (example_store team_df) 0 ''Mar'' ''2025'') =
     Inr [\<lparr>Name = StrCell ''Amy'', Project = ''SDI'', Expected_Hours = 1,
           Actual_Hours = 0, Completion = 0\<rparr>,
          \<lparr>Name = StrCell ''Zed'', Project = ''Alma'', Expected_Hours = 2,
           Actual_Hours = 0, Completion = 0\<rparr>,
          \<lparr>Name = StrCell ''Zed'', Project = ''SDI'', Expected_Hours = 3,
           Actual_Hours = 0, Completion = 0\<rparr>]"
  by (simp add: example_eval team_df_def alice_tickets_def)

text \<open>
  Claim C5. The records that \<open>process_allocation_csv\<close> returns are in ascending order of
  the pair of employee name and project name, names compared as text (for a table whose
  names are text the pair is exactly the \<open>Name\<close> and the \<open>Project\<close> of the record). The
  function is deterministic, being a function of its inputs; and a second call on the
  same table, in the store that the first call has left, returns the same records in
  the same order.
\<close>

theorem sorted_and_idempotent:
  assumes "snd (process_allocation_csv e s df m y) = Inr recs"
  shows "sorted (map sort_key_of recs) \<and>
    ((\<forall>row \<in> set (rows (heap s df)). is_text (row ''Name'')) \<longrightarrow>
       (\<forall>rec \<in> set recs. Name rec = StrCell (fst (sort_key_of rec)) \<and>
                          Project rec = snd (sort_key_of rec))) \<and>
    (df < next_ref s \<longrightarrow>
       snd (process_allocation_csv e (fst (process_allocation_csv e s df m y)) df m y) = Inr recs)"
proof -
  from assms have recs: "recs = report (snd (fetch_all_actual_hours e m y)) (heap s df)"
    by (rule process_success)
  then have "sorted (map sort_key_of recs)"
    by (simp add: report_def sorted_sort_values)
  moreover have "Name rec = StrCell (fst (sort_key_of rec)) \<and> Project rec = snd (sort_key_of rec)"
    if "\<forall>row \<in> set (rows (heap s df)). is_text (row ''Name'')" "rec \<in> set recs" for rec
  proof -
    from that(2) recs obtain row where "row \<in> set (rows (heap s df))" "Name rec = row ''Name''"
      using report_Name by blast
    with that(1) have "is_text (Name rec)" by simp
    then show ?thesis by (simp add: sort_key_of_def name_text_StrCell)
  qed
  moreover have "snd (process_allocation_csv e (fst (process_allocation_csv e s df m y)) df m y) = Inr recs"
    if "df < next_ref s"
    using that assms by (rule process_again)
  ultimately show ?thesis by blast
qed

theorem sorted_and_idempotent_witness:
  "snd (process_allocation_csv (example_env alice_tickets) (example_store team_df) 0 ''Mar'' ''2025'') =
     Inr [\<lparr>Name = StrCell ''Amy'', Project = ''SDI'', Expected_Hours = 1,
           Actual_Hours = 0, Completion = 0\<rparr>,
          \<lparr>Name = StrCell ''Zed'', Project = ''Alma'', Expected_Hours = 2,
           Actual_Hours = 0, Completion = 0\<rparr>,
          \<lparr>Name = StrCell ''Zed'', Project = ''SDI'', Expected_Hours = 3,
           Actual_Hours = 0, Completion = 0\<rparr>] \<and>
   sorted [(''Amy'', ''SDI''), (''Zed'', ''Alma''), (''Zed'', ''SDI'')] \<and>
   Name \<lparr>Name = StrCell ''Zed'', Project = ''Alma'', Expected_Hours = 2,
           Actual_Hours = 0, Completion = 0\<rparr> =
     StrCell (fst (sort_key_of \<lparr>Name = StrCell ''Zed'', Project = ''Alma'', Expected_Hours = 2,
           Actual_Hours = 0, Completion = 0\<rparr>)) \<and>
   (0::nat) < next_ref (example_store team_df) \<and>
   snd (process_allocation_csv (example_env alice_tickets)
          (fst (process_allocation_csv (example_env alice_tickets) (example_store team_df) 0
                  ''Mar'' ''2025''))
          0 ''Mar'' ''2025'') =
     Inr [\<lparr>Name = StrCell ''Amy'', Project = ''SDI'', Expected_Hours = 1,
           Actual_Hours = 0, Completion = 0\<rparr>,
          \<lparr>Name = StrCell ''Zed'', Project = ''Alma'', Expected_Hours = 2,
           Actual_Hours = 0, Completion = 0\<rparr>,
          \<lparr>Name = StrCell ''Zed'', Project = ''SDI'', Expected_Hours = 3,
           Actual_Hours = 0, Completion = 0\<rparr>]"
proof -
  note inst = sorted_and_idempotent [OF team_run]
  have ref: "(0::nat) < next_ref (example_store team_df)"
    by (simp add: example_store_def)
  from inst have "sorted (map sort_key_of
     [\<lparr>Name = StrCell ''Amy'', Project = ''SDI'', Expected_Hours = 1,
           Actual_Hours = 0, Completion = 0\<rparr>,
          \<lparr>Name = StrCell ''Zed'', Project = ''Alma'', Expected_Hours = 2,
           Actual_Hours = 0, Completion = 0\<rparr>,
          \<lparr>Name = StrCell ''Zed'', Project = ''SDI'', Expected_Hours = 3,
           Actual_Hours = 0, Completion = 0\<rparr>])"
    by blast
  then have ordered: "sorted [(''Amy'', ''SDI''), (''Zed'', ''Alma''), (''Zed'', ''SDI'')]"
    by (simp add: sort_key_of_def)
  have names: "\<forall>row \<in> set (rows (heap (example_store team_df) 0)). is_text (row ''Name'')"
    by (simp add: example_store_def team_df_def table_row_def)
  have "\<lparr>Name = StrCell ''Zed'', Project = ''Alma'', Expected_Hours = 2,
           Actual_Hours = 0, Completion = 0\<rparr> \<in> set
     [\<lparr>Name = StrCell ''Amy'', Project = ''SDI'', Expected_Hours = 1,
           Actual_Hours = 0, Completion = 0\<rparr>,
          \<lparr>Name = StrCell ''Zed'', Project = ''Alma'', Expected_Hours = 2,
           Actual_Hours = 0, Completion = 0\<rparr>,
          \<lparr>Name = StrCell ''Zed'', Project = ''SDI'', Expected_Hours = 3,
           Actual_Hours = 0, Completion = 0\<rparr>]"
    by simp
  with inst names have key: "Name \<lparr>Name = StrCell ''Zed'', Project = ''Alma'', Expected_Hours = 2,
           Actual_Hours = 0, Completion = 0\<rparr> =
     StrCell (fst (sort_key_of \<lparr>Name = StrCell ''Zed'', Project = ''Alma'', Expected_Hours = 2,
           Actual_Hours = 0, Completion = 0\<rparr>))"
    by blast
  from inst ref team_run ordered key show ?thesis by blast
qed

section \<open>What the lookup cannot change\<close>

lemma standardize_project_name:
  "map_sum id fst (standardize_project L1 n c) = map_sum id fst (standardize_project L2 n c)"
  by (simp add: standardize_project_def split: option.splits pname.splits)

lemma cell_lines_shape:
  "map shape (cell_lines L1 row c) = map shape (cell_lines L2 row c)"
proof -
  obtain p1 a1 where 1: "standardize_project L1 (row ''Name'') c = Inr (p1, a1)"
    using standardize_project_Inr by blast
  obtain p2 a2 where 2: "standardize_project L2 (row ''Name'') c = Inr (p2, a2)"
    using standardize_project_Inr by blast
  from 1 2 standardize_project_name [of L1 "row ''Name''" c L2] have "p1 = p2" by simp
  with 1 2 show ?thesis
    by (simp add: cell_lines_def cell_records_def records_of_def shape_def
        split: sum.splits option.splits)
qed

lemma row_lines_shape:
  "map shape (row_lines L1 pcs row) = map shape (row_lines L2 pcs row)"
  by (induction pcs) (simp_all add: row_lines_def cell_lines_shape)

lemma insort_key_map:
  "\<forall>x. k' (f x) = k x \<Longrightarrow> map f (insort_key k x xs) = insort_key k' (f x) (map f xs)"
  by (induction xs) simp_all

lemma sort_key_map:
  "\<forall>x. k' (f x) = k x \<Longrightarrow> map f (sort_key k xs) = sort_key k' (map f xs)"
  by (induction xs) (simp_all add: insort_key_map)

lemma sort_values_shape:
  "map shape (sort_values xs) = sort_key (\<lambda>(n, p, x). (name_text n, p)) (map shape xs)"
  unfolding sort_values_def
  by (rule sort_key_map) (simp add: shape_def sort_key_of_def)

lemma report_shape: "map shape (report L1 df) = map shape (report L2 df)"
proof -
  have "map shape (concat (map (\<lambda>row. row_lines L1 (numeric_cols df) (converted (numeric_cols df) row)) (rows df))) =
        map shape (concat (map (\<lambda>row. row_lines L2 (numeric_cols df) (converted (numeric_cols df) row)) (rows df)))"
    by (simp add: map_concat o_def row_lines_shape [of L1 _ _ L2])
  then show ?thesis by (simp add: report_def sort_values_shape)
qed

text \<open>
  Claim C10. Which records \<open>process_allocation_csv\<close> returns, and their \<open>Name\<close>,
  \<open>Project\<close> and \<open>Expected Hours\<close>, do not depend on the actual hours: two runs on the
  same table that differ in what the ticket provider answers, and in the period asked
  for, either raise the same error or return lists of the same length whose records
  agree, one by one, on these three fields. The same holds of the report for any two
  lookups whatever.
\<close>

theorem lookup_independence:
  "map_sum id (map shape)
     (snd (process_allocation_csv (e\<lparr>jira_tickets := tickets1\<rparr>) s df m1 y1)) =
   map_sum id (map shape)
     (snd (process_allocation_csv (e\<lparr>jira_tickets := tickets2\<rparr>) s df m2 y2)) \<and>
   map shape (report L1 (heap s df)) = map shape (report L2 (heap s df))"
proof -
  have users: "fetch_valid_users (e\<lparr>jira_tickets := tickets1\<rparr>) =
      fetch_valid_users (e\<lparr>jira_tickets := tickets2\<rparr>)"
    by (simp add: fetch_valid_users_def)
  have "map_sum id (map shape)
     (snd (process_allocation_csv (e\<lparr>jira_tickets := tickets1\<rparr>) s df m1 y1)) =
   map_sum id (map shape)
     (snd (process_allocation_csv (e\<lparr>jira_tickets := tickets2\<rparr>) s df m2 y2))"
    unfolding process_result users
    by (simp add: report_shape [of "snd (fetch_all_actual_hours (e\<lparr>jira_tickets := tickets1\<rparr>) m1 y1)" _
          "snd (fetch_all_actual_hours (e\<lparr>jira_tickets := tickets2\<rparr>) m2 y2)"]
        split: sum.splits)
  then show ?thesis
    using report_shape [of L1 "heap s df" L2] by simp
qed

theorem lookup_independence_witness:
  "map_sum id (map shape)
     (snd (process_allocation_csv (example_env alice_tickets) (example_store alice_df) 0
             ''Mar'' ''2025'')) =
     Inr [(StrCell ''Alice'', ''SDI'', 10)] \<and>
   map_sum id (map shape)
     (snd (process_allocation_csv (example_env no_tickets) (example_store alice_df) 0
             ''Feb'' ''2024'')) =
     Inr [(StrCell ''Alice'', ''SDI'', 10)]"
proof -
  have e1: "(example_env alice_tickets)\<lparr>jira_tickets := \<lambda>month_str. Inr alice_tickets\<rparr> =
      example_env alice_tickets"
    and e2: "(example_env alice_tickets)\<lparr>jira_tickets := \<lambda>month_str. Inr no_tickets\<rparr> =
      example_env no_tickets"
    by (simp_all add: example_env_def)
  have first: "map_sum id (map shape)
     (snd (process_allocation_csv (example_env alice_tickets) (example_store alice_df) 0
             ''Mar'' ''2025'')) = Inr [(StrCell ''Alice'', ''SDI'', 10)]"
    by (simp add: alice_run shape_def)
  from lookup_independence [where e = "example_env alice_tickets"
      and ?tickets1.0 = "\<lambda>month_str. Inr alice_tickets" and s = "example_store alice_df"
      and df = 0 and ?m1.0 = "''Mar''" and ?y1.0 = "''2025''"
      and ?tickets2.0 = "\<lambda>month_str. Inr no_tickets" and ?m2.0 = "''Feb''" and ?y2.0 = "''2024''"]
  have "map_sum id (map shape)
     (snd (process_allocation_csv (example_env alice_tickets) (example_store alice_df) 0
             ''Mar'' ''2025'')) =
    map_sum id (map shape)
     (snd (process_allocation_csv (example_env no_tickets) (example_store alice_df) 0
             ''Feb'' ''2024''))"
    by (simp add: e1 e2)
  with first show ?thesis by simp
qed

end
